theory Spec2Isabelle
  imports Complex_Main "HOL-Library.AList"
begin

section \<open>JavaScript objects used as tables\<close>

text \<open>
  The provider keeps its tables in plain JavaScript objects: the two style tables of the
  limit evaluator are object literals and the subscription registry \<^verbatim>\<open>this.listener\<close>
  starts as \<^verbatim>\<open>{}\<close>. An object is modelled by the association list of its own
  properties. A read \<^verbatim>\<open>obj[k]\<close> and the test \<^verbatim>\<open>k in obj\<close> also see what the
  object inherits from \<^verbatim>\<open>Object.prototype\<close>, so a lookup in a style table has three
  outcomes. The reads of the registry, whose prototype a registration can replace, are
  described with \<open>listener_member\<close> below.
\<close>

datatype 'a lookup = Own 'a | Inherited | Missing

definition Object_prototype_keys :: "string list" where
  "Object_prototype_keys =
     [''constructor'', ''__defineGetter__'', ''__defineSetter__'', ''hasOwnProperty'',
      ''__lookupGetter__'', ''__lookupSetter__'', ''isPrototypeOf'',
      ''propertyIsEnumerable'', ''toString'', ''valueOf'', ''__proto__'',
      ''toLocaleString'']"

definition js_get :: "(string \<times> 'a) list \<Rightarrow> string \<Rightarrow> 'a lookup" where
  "js_get obj k =
     (case map_of obj k of
        Some v \<Rightarrow> Own v
      | None \<Rightarrow> if k \<in> set Object_prototype_keys then Inherited else Missing)"

section \<open>The limit evaluator\<close>

text \<open>
  \<^verbatim>\<open>MONITORING_RESULT_CSS\<close> and \<^verbatim>\<open>RANGE_CONDITION_CSS\<close>, in the order of the source.
\<close>

definition MONITORING_RESULT_CSS :: "(string \<times> string) list" where
  "MONITORING_RESULT_CSS =
     [(''WATCH'', ''is-limit--yellow''),
      (''WARNING'', ''is-limit--yellow''),
      (''DISTRESS'', ''is-limit--red''),
      (''CRITICAL'', ''is-limit--red''),
      (''SEVERE'', ''is-limit--red'')]"

definition RANGE_CONDITION_CSS :: "(string \<times> string) list" where
  "RANGE_CONDITION_CSS =
     [(''LOW'', ''is-limit--lwr''),
      (''HIGH'', ''is-limit--upr'')]"

text \<open>
  A telemetry point as the evaluator reads it. A field that the point does not carry
  (\<^verbatim>\<open>undefined\<close>) is \<open>None\<close>. Classifications are strings, bounds are numbers; a
  JavaScript number read from JSON is finite, and the evaluator only tests a bound for
  truthiness and copies it, so bounds are reals here.
\<close>

record alarm_range =
  level :: "string option"
  minInclusive :: "real option"
  minExclusive :: "real option"
  maxInclusive :: "real option"
  maxExclusive :: "real option"

record datum =
  monitoringResult :: "string option"
  rangeCondition :: "string option"
  alarmRange :: "alarm_range list option"

record evaluation_result =
  cssClass :: string
  name :: string
  low :: "real option"
  high :: "real option"

text \<open>
  What \<^verbatim>\<open>evaluate\<close> returns: nothing (\<^verbatim>\<open>undefined\<close>), or the descriptor. When
  the classification or the range condition is the name of a member of
  \<^verbatim>\<open>Object.prototype\<close>, the \<^verbatim>\<open>in\<close> test of the source succeeds and the source
  returns an object whose style is built from that inherited member instead of a style
  string: \<open>InheritedStyle\<close> stands for such an object, whose fields are not described.
\<close>

datatype evaluation = NoViolation | Violation evaluation_result | InheritedStyle

text \<open>Truthiness of an optional number and of an optional string.\<close>

definition truthy_num :: "real option \<Rightarrow> bool" where
  "truthy_num v = (case v of None \<Rightarrow> False | Some x \<Rightarrow> x \<noteq> 0)"

definition truthy_str :: "string option \<Rightarrow> bool" where
  "truthy_str v = (case v of None \<Rightarrow> False | Some s \<Rightarrow> s \<noteq> [])"

text \<open>\<^verbatim>\<open>findAlarmRange\<close>: the first range whose level equals the monitoring result.\<close>

definition findAlarmRange :: "datum \<Rightarrow> string \<Rightarrow> alarm_range option" where
  "findAlarmRange d result =
     (case alarmRange d of
        None \<Rightarrow> None
      | Some ranges \<Rightarrow> find (\<lambda>rng. level rng = Some result) ranges)"

text \<open>\<^verbatim>\<open>addLimitRange\<close>: four tests in the order of the source, each on truthiness.\<close>

definition addLimitRange :: "datum \<Rightarrow> string \<Rightarrow> evaluation_result \<Rightarrow> evaluation_result" where
  "addLimitRange d result evaluationResult =
     (case findAlarmRange d result of
        None \<Rightarrow> evaluationResult
      | Some rng \<Rightarrow>
          (let e1 = (if truthy_num (minInclusive rng)
                     then evaluationResult\<lparr>low := minInclusive rng\<rparr> else evaluationResult);
               e2 = (if truthy_num (minExclusive rng)
                     then e1\<lparr>low := minExclusive rng\<rparr> else e1);
               e3 = (if truthy_num (maxInclusive rng)
                     then e2\<lparr>high := maxInclusive rng\<rparr> else e2);
               e4 = (if truthy_num (maxExclusive rng)
                     then e3\<lparr>high := maxExclusive rng\<rparr> else e3)
           in e4))"

text \<open>
  \<^verbatim>\<open>evaluate\<close>. The guard \<^verbatim>\<open>datum.x && datum.x in TABLE\<close> is the truthiness of
  the string followed by the lookup.
\<close>

definition evaluate :: "datum \<Rightarrow> evaluation" where
  "evaluate d =
     (case monitoringResult d of
        None \<Rightarrow> NoViolation
      | Some mr \<Rightarrow>
          if \<not> truthy_str (Some mr) then NoViolation
          else
            (case js_get MONITORING_RESULT_CSS mr of
               Missing \<Rightarrow> NoViolation
             | Inherited \<Rightarrow> InheritedStyle
             | Own css \<Rightarrow>
                 (let evaluationResult = \<lparr>cssClass = css, name = mr, low = None, high = None\<rparr>
                  in case rangeCondition d of
                       None \<Rightarrow> Violation evaluationResult
                     | Some rc \<Rightarrow>
                         if \<not> truthy_str (Some rc) then Violation evaluationResult
                         else
                           (case js_get RANGE_CONDITION_CSS rc of
                              Missing \<Rightarrow> Violation evaluationResult
                            | Inherited \<Rightarrow> InheritedStyle
                            | Own suffix \<Rightarrow>
                                Violation
                                  (addLimitRange d mr
                                     (evaluationResult\<lparr>cssClass := css @ '' '' @ suffix\<rparr>))))))"

section \<open>The realtime provider\<close>

subsection \<open>Values decoded from the wire\<close>

text \<open>
  A value produced by \<^verbatim>\<open>JSON.parse\<close>, with \<^verbatim>\<open>undefined\<close> added for the reads
  that find nothing.
\<close>

datatype js = Undefined | Null | Bool bool | Num real | Str string
  | Arr "js list" | Obj "(string \<times> js) list"

datatype error = TypeError | SendFailed | External string

text \<open>
  A property read \<^verbatim>\<open>v.k\<close>. Reading a property of \<^verbatim>\<open>undefined\<close> or \<^verbatim>\<open>null\<close>
  throws a TypeError. The handler reads only the names \<^verbatim>\<open>dt\<close>, \<^verbatim>\<open>data\<close>,
  \<^verbatim>\<open>parameter\<close>, \<^verbatim>\<open>id\<close>, \<^verbatim>\<open>name\<close>, \<^verbatim>\<open>generationTimeUTC\<close> and
  \<^verbatim>\<open>engValue\<close>; no built-in prototype has a member of one of these names, so such a
  read on anything but an object with that own property gives \<^verbatim>\<open>undefined\<close>.
\<close>

fun js_prop :: "js \<Rightarrow> string \<Rightarrow> error + js" where
  "js_prop Undefined k = Inl TypeError"
| "js_prop Null k = Inl TypeError"
| "js_prop (Obj ps) k = Inr (case map_of ps k of Some v \<Rightarrow> v | None \<Rightarrow> Undefined)"
| "js_prop v k = Inr Undefined"

text \<open>
  The sample handed to a telemetry callback: \<^verbatim>\<open>{id, timestamp, value}\<close>, and whatever
  \<^verbatim>\<open>addLimitInformation\<close> attaches to it.
\<close>

record point =
  point_id :: string
  timestamp :: js
  point_value :: js
  limitInformation :: "(string \<times> js) list"

text \<open>
  What a callback is called with: a sample, the data of an event frame, or nothing at all
  (the one call without an argument is described with \<open>objectPrototypeCall\<close> below).
\<close>

datatype payload = Point point | EventData js | NoArgument

text \<open>
  What calling a member of the registry does, as far as the provider can tell: the
  callbacks it invokes, with their arguments, and the error it throws, if it throws.
\<close>

type_synonym 'cb called = "('cb \<times> payload) list \<times> error option"

text \<open>
  What an assignment to a key of the registry does when the key is not an own key and the
  prototype of the registry is a function of the host (see \<open>assignListener\<close>).
\<close>

datatype assigned = CreatesOwn | ReplacesPrototype | Ignored | AssignThrows error

text \<open>
  The modules \<^verbatim>\<open>../const\<close> and \<^verbatim>\<open>../utils.js\<close> are not part of the sources at
  hand; what the provider imports from them is a parameter of the model. A utility that
  is handed a wire value may throw.

  The callbacks belong to the host as well. A registration under \<^verbatim>\<open>__proto__\<close> makes
  a callback, which is a function object, the prototype of the registry. What a read or
  an assignment of a key that is not an own key of the registry then finds depends on
  the properties of that function object, so it is a parameter too: for the function,
  the own entries of the registry and the key, \<open>functionMember\<close> gives the value read
  (\<open>None\<close> when it is falsy, otherwise what calling it as a method of the registry does),
  and \<open>functionAssign\<close> gives the effect of the assignment.
\<close>

record 'cb env =
  EVENTS_OBJECT_TYPE :: string
  idToQualifiedName :: "string \<Rightarrow> string"
  qualifiedNameToId :: "js \<Rightarrow> error + string"
  getValue :: "js \<Rightarrow> error + js"
  addLimitInformation :: "js \<Rightarrow> point \<Rightarrow> error + point"
  functionMember :: "'cb \<Rightarrow> (string \<times> 'cb) list \<Rightarrow> string \<Rightarrow> (payload \<Rightarrow> 'cb called) option"
  functionAssign :: "'cb \<Rightarrow> (string \<times> 'cb) list \<Rightarrow> string \<Rightarrow> assigned"

subsection \<open>Constants\<close>

definition WS_IDLE_INTERVAL_MS :: nat where
  "WS_IDLE_INTERVAL_MS = 10000"

definition FALLBACK_AND_WAIT_MS :: "nat list" where
  "FALLBACK_AND_WAIT_MS = [1000, 5000, 5000, 10000, 10000, 30000]"

text \<open>
  The delay handed to \<^verbatim>\<open>setTimeout\<close>: \<^verbatim>\<open>FALLBACK_AND_WAIT_MS[i]\<close>, which is
  \<^verbatim>\<open>undefined\<close> when the index is out of range.
\<close>

datatype delay = Ms nat | UndefinedDelay

definition wait_at :: "nat \<Rightarrow> delay" where
  "wait_at i =
     (if i < length FALLBACK_AND_WAIT_MS then Ms (FALLBACK_AND_WAIT_MS ! i)
      else UndefinedDelay)"

subsection \<open>Decimal numbers and the order of \<^verbatim>\<open>Object.keys\<close>\<close>

definition digit_char :: "nat \<Rightarrow> char" where
  "digit_char d = ''0123456789'' ! d"

fun string_of_nat :: "nat \<Rightarrow> string" where
  "string_of_nat n =
     (if n < 10 then [digit_char n]
      else string_of_nat (n div 10) @ [digit_char (n mod 10)])"

definition is_digit :: "char \<Rightarrow> bool" where
  "is_digit c = (c \<in> set ''0123456789'')"

definition nat_of_digits :: "string \<Rightarrow> nat" where
  "nat_of_digits ds = foldl (\<lambda>a c. 10 * a + (of_char c - 48)) 0 ds"

text \<open>
  An array index is the canonical decimal form of a number below \<open>2^32 - 1\<close>.
  \<^verbatim>\<open>Object.keys\<close> lists the own keys that are array indices first, in ascending
  numeric order, and then the other keys in the order of their creation.
\<close>

definition is_array_index :: "string \<Rightarrow> bool" where
  "is_array_index k =
     (k \<noteq> [] \<and> list_all is_digit k \<and> (length k = 1 \<or> hd k \<noteq> CHR ''0'')
      \<and> length k \<le> 10 \<and> nat_of_digits k < 4294967295)"

definition Object_keys :: "(string \<times> 'a) list \<Rightarrow> string list" where
  "Object_keys obj =
     sort_key nat_of_digits (filter is_array_index (map fst obj))
       @ filter (\<lambda>k. \<not> is_array_index k) (map fst obj)"

subsection \<open>The provider's state\<close>

text \<open>
  The first seven fields are the fields of \<^verbatim>\<open>RealtimeTelemetryProvider\<close> that the
  connection handling reads and writes. The registry \<^verbatim>\<open>this.listener\<close> is two of
  them: \<open>listener\<close> holds its own entries, in the order of their creation, and
  \<open>listenerProto\<close> its prototype, \<open>None\<close> for \<^verbatim>\<open>Object.prototype\<close>, with which the
  registry starts, and \<open>Some f\<close> once a registration under \<^verbatim>\<open>__proto__\<close> has made the
  callback \<open>f\<close> the prototype. \<open>reconnectTimeout\<close> is the timer handle:
  \<open>None\<close> when the field is absent, otherwise the delay that timer was started with.
  The remaining fields are the runtime around the provider:
  \<^item> \<open>socketsOpened\<close> counts the \<^verbatim>\<open>new WebSocket\<close> calls (\<open>0\<close>: \<^verbatim>\<open>this.socket\<close>
    is still \<^verbatim>\<open>undefined\<close>);
  \<^item> \<open>socketSent\<close> lists the payloads that \<^verbatim>\<open>socket.send\<close> accepted, oldest first;
  \<^item> \<open>sendThrows\<close> scripts the coming calls of \<^verbatim>\<open>socket.send\<close>, \<open>True\<close> for a call
    that throws; when the script is used up, a call succeeds;
  \<^item> \<open>timeoutPending\<close> says whether the reconnect timer is armed, and \<open>timeoutDelays\<close>
    lists the delays \<^verbatim>\<open>setTimeout\<close> was called with, oldest first;
  \<^item> \<open>keepAliveIntervals\<close> counts the armed \<^verbatim>\<open>setInterval\<close> timers;
  \<^item> \<open>delivered\<close> lists the callback invocations, oldest first. A callback is a
    function of the host, an opaque value here: it is taken to return normally and not to
    call back into the provider.
\<close>

record 'cb provider =
  seqNo :: nat
  connected :: bool
  listener :: "(string \<times> 'cb) list"
  listenerProto :: "'cb option"
  requests :: "string list"
  currentWaitIndex :: nat
  reconnectTimeout :: "delay option"
  socketsOpened :: nat
  socketSent :: "string list"
  sendThrows :: "bool list"
  timeoutPending :: bool
  timeoutDelays :: "delay list"
  keepAliveIntervals :: nat
  delivered :: "('cb \<times> payload) list"

text \<open>The constructor, for a given script of the socket.\<close>

definition new_provider :: "bool list \<Rightarrow> 'cb provider" where
  "new_provider script =
     \<lparr>seqNo = 0, connected = False, listener = [], listenerProto = None, requests = [],
      currentWaitIndex = 0,
      reconnectTimeout = None, socketsOpened = 0, socketSent = [], sendThrows = script,
      timeoutPending = False, timeoutDelays = [], keepAliveIntervals = 0, delivered = []\<rparr>"

subsection \<open>Sending, queueing and the reconnect timer\<close>

definition frame :: "nat \<Rightarrow> string \<Rightarrow> string" where
  "frame n request = ''[1, 1, '' @ string_of_nat n @ '', '' @ request @ '']''"

text \<open>
  \<^verbatim>\<open>sendRequest\<close>: the sequence number is incremented while the payload is built, before
  the call that may throw. Without a socket the call is a TypeError.
\<close>

definition sendRequest :: "string \<Rightarrow> 'cb provider \<Rightarrow> error option \<times> 'cb provider" where
  "sendRequest request s =
     (let s1 = s\<lparr>seqNo := seqNo s + 1\<rparr>;
          payload = frame (seqNo s1) request
      in if socketsOpened s1 = 0 then (Some TypeError, s1)
         else
           (case sendThrows s1 of
              [] \<Rightarrow> (None, s1\<lparr>socketSent := socketSent s1 @ [payload]\<rparr>)
            | t # ts \<Rightarrow>
                if t then (Some SendFailed, s1\<lparr>sendThrows := ts\<rparr>)
                else (None, s1\<lparr>sendThrows := ts, socketSent := socketSent s1 @ [payload]\<rparr>)))"

definition reconnect :: "'cb provider \<Rightarrow> 'cb provider" where
  "reconnect s =
     (if reconnectTimeout s \<noteq> None then s
      else
        (let d = wait_at (currentWaitIndex s);
             s1 = s\<lparr>reconnectTimeout := Some d, timeoutPending := True,
                     timeoutDelays := timeoutDelays s @ [d]\<rparr>
         in if currentWaitIndex s1 < length FALLBACK_AND_WAIT_MS
            then s1\<lparr>currentWaitIndex := currentWaitIndex s1 + 1\<rparr>
            else s1))"

text \<open>
  \<^verbatim>\<open>sendOrQueueRequest\<close> returns \<^verbatim>\<open>true\<close> after a send and \<^verbatim>\<open>undefined\<close>
  otherwise; every caller drops the result.
\<close>

definition sendOrQueueRequest :: "string \<Rightarrow> 'cb provider \<Rightarrow> bool \<times> 'cb provider" where
  "sendOrQueueRequest request s =
     (if connected s then
        (case sendRequest request s of
           (None, s1) \<Rightarrow> (True, s1)
         | (Some e, s1) \<Rightarrow>
             (False, reconnect (s1\<lparr>connected := False, requests := requests s1 @ [request]\<rparr>)))
      else (False, s\<lparr>requests := requests s @ [request]\<rparr>))"

text \<open>The control messages, character for character.\<close>

definition idle_request :: string where
  \<open>idle_request = ''{"parameter": "subscribe", "data": { "id": [] }}''\<close>

definition tlm_subscribe_request :: "string \<Rightarrow> string" where
  \<open>tlm_subscribe_request n =
     ''{"parameter": "subscribe",\<newline>                     "data": { "id": [{ "name": "'' @ n
       @ ''" }],\<newline>                     "sendFromCache": false }}''\<close>

definition event_subscribe_request :: string where
  \<open>event_subscribe_request = ''{'events': 'subscribe'}''\<close>

text \<open>
  The parameter of \<^verbatim>\<open>tlmUnsubscribe\<close> is optional here because the unsubscribe handle
  calls it without an argument; the template then prints \<^verbatim>\<open>undefined\<close>.
\<close>

definition tlm_unsubscribe_request :: "string option \<Rightarrow> string" where
  \<open>tlm_unsubscribe_request n =
     ''{"parameter": "unsubscribe",\<newline>                     "data": { "id": [{ "name": "''
       @ (case n of None \<Rightarrow> ''undefined'' | Some x \<Rightarrow> x) @ ''" }] }}''\<close>

definition event_unsubscribe_request :: string where
  \<open>event_unsubscribe_request = ''{'events': 'unsubscribe'}''\<close>

definition idleTlmSubscribe :: "'cb provider \<Rightarrow> 'cb provider" where
  "idleTlmSubscribe s = snd (sendOrQueueRequest idle_request s)"

definition tlmSubscribe :: "string \<Rightarrow> 'cb provider \<Rightarrow> 'cb provider" where
  "tlmSubscribe n s = snd (sendOrQueueRequest (tlm_subscribe_request n) s)"

definition eventSubscribe :: "'cb provider \<Rightarrow> 'cb provider" where
  "eventSubscribe s = snd (sendOrQueueRequest event_subscribe_request s)"

definition tlmUnsubscribe :: "string option \<Rightarrow> 'cb provider \<Rightarrow> 'cb provider" where
  "tlmUnsubscribe n s = snd (sendOrQueueRequest (tlm_unsubscribe_request n) s)"

definition eventUnsubscribe :: "'cb provider \<Rightarrow> 'cb provider" where
  "eventUnsubscribe s = snd (sendOrQueueRequest event_unsubscribe_request s)"

text \<open>
  \<^verbatim>\<open>flushQueue\<close>: the callback of \<^verbatim>\<open>filter\<close> runs on every queued request, in order;
  it keeps the request when the send throws. The loop returns the kept requests, the flag
  \<^verbatim>\<open>shouldReconnect\<close> and the state.
\<close>

fun flushLoop :: "string list \<Rightarrow> 'cb provider \<Rightarrow> string list \<times> bool \<times> 'cb provider" where
  "flushLoop [] s = ([], False, s)"
| "flushLoop (request # rest) s =
     (case sendRequest request s of
        (None, s1) \<Rightarrow> flushLoop rest s1
      | (Some e, s1) \<Rightarrow>
          (case flushLoop rest (s1\<lparr>connected := False\<rparr>) of
             (kept, shouldReconnect, s2) \<Rightarrow> (request # kept, True, s2)))"

definition flushQueue :: "'cb provider \<Rightarrow> 'cb provider" where
  "flushQueue s =
     (case flushLoop (requests s) s of
        (kept, shouldReconnect, s1) \<Rightarrow>
          (let s2 = s1\<lparr>requests := kept\<rparr>
           in if shouldReconnect then reconnect s2 else s2))"

subsection \<open>Subscribing and unsubscribing\<close>

text \<open>
  The function that \<^verbatim>\<open>subscribe\<close> returns is a closure over the identifier; it is
  modelled by a value that \<open>unsubscribe\<close> runs. The telemetry closure calls
  \<^verbatim>\<open>tlmUnsubscribe\<close> without an argument.
\<close>

datatype handle = TelemetryHandle string | EventHandle string

fun unsubscribe :: "handle \<Rightarrow> 'cb provider \<Rightarrow> 'cb provider" where
  "unsubscribe (TelemetryHandle k) s =
     (let s1 = tlmUnsubscribe None s in s1\<lparr>listener := AList.delete k (listener s1)\<rparr>)"
| "unsubscribe (EventHandle k) s =
     (let s1 = eventUnsubscribe s in s1\<lparr>listener := AList.delete k (listener s1)\<rparr>)"

definition subscribeToTelemetry :: "string \<Rightarrow> string \<Rightarrow> 'cb provider \<Rightarrow> handle \<times> 'cb provider" where
  "subscribeToTelemetry n k s =
     (TelemetryHandle k, if connected s then tlmSubscribe n s else s)"

definition subscribeToEvent :: "string \<Rightarrow> 'cb provider \<Rightarrow> handle \<times> 'cb provider" where
  "subscribeToEvent k s =
     (EventHandle k, if connected s then eventSubscribe s else s)"

text \<open>
  The assignment \<^verbatim>\<open>this.listener[id] = callback\<close>. An own key is overwritten. A key
  that is not an own key is looked for along the prototypes. With \<^verbatim>\<open>Object.prototype\<close>
  as the prototype, \<^verbatim>\<open>__proto__\<close> is the one key that is not stored: its setter makes
  the callback the prototype of the registry and no own entry is created; every other key
  becomes a new own entry, the last in the order of creation. With a function as the
  prototype, the effect is the host's: the module is strict code, so an assignment that
  a property of that function forbids throws.
\<close>

definition assignListener :: "'cb env \<Rightarrow> string \<Rightarrow> 'cb \<Rightarrow> 'cb provider \<Rightarrow> error + 'cb provider" where
  "assignListener env k callback s =
     (if k \<in> fst ` set (listener s)
      then Inr (s\<lparr>listener := AList.update k callback (listener s)\<rparr>)
      else
        (case listenerProto s of
           None \<Rightarrow>
             if k = ''__proto__'' then Inr (s\<lparr>listenerProto := Some callback\<rparr>)
             else Inr (s\<lparr>listener := AList.update k callback (listener s)\<rparr>)
         | Some f \<Rightarrow>
             (case functionAssign env f (listener s) k of
                CreatesOwn \<Rightarrow> Inr (s\<lparr>listener := AList.update k callback (listener s)\<rparr>)
              | ReplacesPrototype \<Rightarrow> Inr (s\<lparr>listenerProto := Some callback\<rparr>)
              | Ignored \<Rightarrow> Inr s
              | AssignThrows e \<Rightarrow> Inl e)))"

text \<open>
  \<^verbatim>\<open>subscribe\<close>, with \<^verbatim>\<open>domainObject.identifier.key\<close> as its first argument. It
  returns the state it leaves and either the unsubscribe handle or, when the assignment
  throws, the error.
\<close>

definition subscribe :: "'cb env \<Rightarrow> string \<Rightarrow> 'cb \<Rightarrow> 'cb provider \<Rightarrow> (error + handle) \<times> 'cb provider" where
  "subscribe env k callback s =
     (case assignListener env k callback s of
        Inl e \<Rightarrow> (Inl e, s)
      | Inr s1 \<Rightarrow>
          (case (if k = EVENTS_OBJECT_TYPE env then subscribeToEvent k s1
                 else subscribeToTelemetry (idToQualifiedName env k) k s1) of
             (h, s2) \<Rightarrow> (Inr h, s2)))"

text \<open>The control message that the sweep emits for a registered identifier.\<close>

definition subscribe_request :: "'cb env \<Rightarrow> string \<Rightarrow> string" where
  "subscribe_request env k =
     (if k = EVENTS_OBJECT_TYPE env then event_subscribe_request
      else tlm_subscribe_request (idToQualifiedName env k))"

definition resubscribeToAll :: "'cb env \<Rightarrow> 'cb provider \<Rightarrow> 'cb provider" where
  "resubscribeToAll env s =
     fold (\<lambda>k s'. if k = EVENTS_OBJECT_TYPE env then eventSubscribe s'
                   else tlmSubscribe (idToQualifiedName env k) s')
       (Object_keys (listener s)) s"

definition idleSubscribe :: "'cb env \<Rightarrow> 'cb provider \<Rightarrow> 'cb provider" where
  "idleSubscribe env s =
     fold (\<lambda>k s'. if k = EVENTS_OBJECT_TYPE env then eventSubscribe s'
                   else idleTlmSubscribe s')
       (Object_keys (listener s)) s"

subsection \<open>The connection and its handlers\<close>

definition connect :: "'cb provider \<Rightarrow> 'cb provider" where
  "connect s =
     (if connected s then s
      else s\<lparr>seqNo := 0, connected := False, socketsOpened := socketsOpened s + 1\<rparr>)"

text \<open>
  \<^verbatim>\<open>clearTimeout(this.reconnectTimeout)\<close> disarms the timer the handle stands for and
  leaves the field as it is.
\<close>

definition clearTimeout :: "'cb provider \<Rightarrow> 'cb provider" where
  "clearTimeout s =
     (case reconnectTimeout s of None \<Rightarrow> s | Some d \<Rightarrow> s\<lparr>timeoutPending := False\<rparr>)"

definition onopen :: "'cb env \<Rightarrow> 'cb provider \<Rightarrow> 'cb provider" where
  "onopen env s =
     (let s1 = clearTimeout s;
          s2 = s1\<lparr>keepAliveIntervals := keepAliveIntervals s1 + 1\<rparr>;
          s3 = s2\<lparr>connected := True\<rparr>;
          s4 = s3\<lparr>currentWaitIndex := 0\<rparr>;
          s5 = resubscribeToAll env s4
      in flushQueue s5)"

definition onerror :: "'cb provider \<Rightarrow> 'cb provider" where
  "onerror s = reconnect (s\<lparr>connected := False\<rparr>)"

definition onclose :: "'cb provider \<Rightarrow> 'cb provider" where
  "onclose s = reconnect (s\<lparr>connected := False\<rparr>)"

text \<open>
  The callback of the reconnect timer: \<^verbatim>\<open>this.connect(); delete this.reconnectTimeout\<close>.
  It runs only when the timer is armed, and the timer fires once.
\<close>

definition reconnectTimeoutFires :: "'cb provider \<Rightarrow> 'cb provider" where
  "reconnectTimeoutFires s =
     (if timeoutPending s
      then (connect (s\<lparr>timeoutPending := False\<rparr>))\<lparr>reconnectTimeout := None\<rparr>
      else s)"

text \<open>The callback of a keepalive timer: \<^verbatim>\<open>idleSubscribe\<close>, when a timer is armed.\<close>

definition keepAliveFires :: "'cb env \<Rightarrow> 'cb provider \<Rightarrow> 'cb provider" where
  "keepAliveFires env s = (if 0 < keepAliveIntervals s then idleSubscribe env s else s)"

subsection \<open>Inbound frames\<close>

text \<open>
  One round of the \<^verbatim>\<open>forEach\<close> over \<^verbatim>\<open>data[3].data.parameter\<close>, in two parts.
  First the sample is built: its fields are computed in the order of the object literal,
  then \<^verbatim>\<open>addLimitInformation\<close> works on it. A throw ends the handler; what was
  delivered before stays delivered.
\<close>

definition makePoint :: "'cb env \<Rightarrow> js \<Rightarrow> error + point" where
  "makePoint env parameter =
     (case js_prop parameter ''id'' of
        Inl e \<Rightarrow> Inl e
      | Inr pid \<Rightarrow>
     (case js_prop pid ''name'' of
        Inl e \<Rightarrow> Inl e
      | Inr nm \<Rightarrow>
     (case qualifiedNameToId env nm of
        Inl e \<Rightarrow> Inl e
      | Inr k \<Rightarrow>
     (case js_prop parameter ''generationTimeUTC'' of
        Inl e \<Rightarrow> Inl e
      | Inr t \<Rightarrow>
     (case js_prop parameter ''engValue'' of
        Inl e \<Rightarrow> Inl e
      | Inr ev \<Rightarrow>
     (case getValue env ev of
        Inl e \<Rightarrow> Inl e
      | Inr v \<Rightarrow>
          addLimitInformation env parameter
            \<lparr>point_id = k, timestamp = t, point_value = v, limitInformation = []\<rparr>))))))"

text \<open>
  Then the registry is read at the identifier of the sample and, when the value read is
  truthy, it is called with the sample: \<^verbatim>\<open>if (this.listener[id]) this.listener[id](point)\<close>.
  The read finds the callback of an own entry; for a key that is not an own key it finds
  what the prototype has under that name.

  The members of \<^verbatim>\<open>Object.prototype\<close> are all truthy. Called as a method of the
  registry with one argument:
  \<^item> \<^verbatim>\<open>__proto__\<close> is the prototype object, which is not a function, and
    \<^verbatim>\<open>__defineGetter__\<close> and \<^verbatim>\<open>__defineSetter__\<close> are given no function as their
    second argument: a TypeError;
  \<^item> \<^verbatim>\<open>hasOwnProperty\<close>, \<^verbatim>\<open>propertyIsEnumerable\<close>, \<^verbatim>\<open>__lookupGetter__\<close> and
    \<^verbatim>\<open>__lookupSetter__\<close> turn the argument into a property key and return; the
    conversion of an object whose own \<^verbatim>\<open>toString\<close> is not a function is a TypeError;
  \<^item> \<^verbatim>\<open>toLocaleString\<close> calls the \<^verbatim>\<open>toString\<close> of the registry without an argument,
    which is the callback registered under that name when there is one;
  \<^item> \<^verbatim>\<open>constructor\<close>, \<^verbatim>\<open>isPrototypeOf\<close>, \<^verbatim>\<open>toString\<close> and \<^verbatim>\<open>valueOf\<close> return.
\<close>

fun js_key_throws :: "js \<Rightarrow> bool" where
  "js_key_throws (Obj ps) = (''toString'' \<in> fst ` set ps)"
| "js_key_throws (Arr xs) = list_ex js_key_throws xs"
| "js_key_throws v = False"

definition key_coercion_throws :: "payload \<Rightarrow> bool" where
  "key_coercion_throws arg =
     (case arg of
        Point pt \<Rightarrow> ''toString'' \<in> fst ` set (limitInformation pt)
      | EventData d \<Rightarrow> js_key_throws d
      | NoArgument \<Rightarrow> False)"

definition objectPrototypeCall :: "(string \<times> 'cb) list \<Rightarrow> string \<Rightarrow> payload \<Rightarrow> 'cb called" where
  "objectPrototypeCall own m arg =
     (if m \<in> {''__proto__'', ''__defineGetter__'', ''__defineSetter__''}
      then ([], Some TypeError)
      else if m \<in> {''hasOwnProperty'', ''propertyIsEnumerable'', ''__lookupGetter__'',
                    ''__lookupSetter__''}
      then (if key_coercion_throws arg then ([], Some TypeError) else ([], None))
      else if m = ''toLocaleString''
      then (case map_of own ''toString'' of
              Some callback \<Rightarrow> ([(callback, NoArgument)], None)
            | None \<Rightarrow> ([], None))
      else ([], None))"

text \<open>
  The read \<^verbatim>\<open>this.listener[k]\<close>: \<open>None\<close> when the value is falsy (nothing is found),
  otherwise what the call of the value does, for the argument of the call.
\<close>

definition listener_member :: "'cb env \<Rightarrow> 'cb provider \<Rightarrow> string \<Rightarrow> (payload \<Rightarrow> 'cb called) option" where
  "listener_member env s k =
     (case map_of (listener s) k of
        Some callback \<Rightarrow> Some (\<lambda>arg. ([(callback, arg)], None))
      | None \<Rightarrow>
          (case listenerProto s of
             None \<Rightarrow>
               if k \<in> set Object_prototype_keys
               then Some (objectPrototypeCall (listener s) k) else None
           | Some f \<Rightarrow> functionMember env f (listener s) k))"

definition dispatch :: "'cb env \<Rightarrow> point \<Rightarrow> 'cb provider \<Rightarrow> error option \<times> 'cb provider" where
  "dispatch env pt s =
     (case listener_member env s (point_id pt) of
        None \<Rightarrow> (None, s)
      | Some call \<Rightarrow>
          (case call (Point pt) of
             (calls, e) \<Rightarrow> (e, s\<lparr>delivered := delivered s @ calls\<rparr>)))"

definition deliverParameter :: "'cb env \<Rightarrow> js \<Rightarrow> 'cb provider \<Rightarrow> error option \<times> 'cb provider" where
  "deliverParameter env parameter s =
     (case makePoint env parameter of
        Inl e \<Rightarrow> (Some e, s)
      | Inr pt \<Rightarrow> dispatch env pt s)"

fun forEachParameter :: "'cb env \<Rightarrow> js list \<Rightarrow> 'cb provider \<Rightarrow> error option \<times> 'cb provider" where
  "forEachParameter env [] s = (None, s)"
| "forEachParameter env (parameter # rest) s =
     (case deliverParameter env parameter s of
        (None, s1) \<Rightarrow> forEachParameter env rest s1
      | (Some e, s1) \<Rightarrow> (Some e, s1))"

definition deliverEvent :: "'cb env \<Rightarrow> js \<Rightarrow> 'cb provider \<Rightarrow> error option \<times> 'cb provider" where
  "deliverEvent env body s =
     (case listener_member env s (EVENTS_OBJECT_TYPE env) of
        None \<Rightarrow> (None, s)
      | Some call \<Rightarrow>
          (case js_prop body ''data'' of
             Inl e \<Rightarrow> (Some e, s)
           | Inr d \<Rightarrow>
               (case call (EventData d) of
                  (calls, e) \<Rightarrow> (e, s\<lparr>delivered := delivered s @ calls\<rparr>))))"

text \<open>
  \<^verbatim>\<open>onmessage\<close>, on the array that \<^verbatim>\<open>JSON.parse\<close> decoded from the frame. A frame
  that does not decode to an array is outside this model.
\<close>

definition onmessage :: "'cb env \<Rightarrow> js list \<Rightarrow> 'cb provider \<Rightarrow> error option \<times> 'cb provider" where
  "onmessage env data s =
     (if length data < 4 then (None, s)
      else
        (let body = data ! 3 in
         case js_prop body ''dt'' of
           Inl e \<Rightarrow> (Some e, s)
         | Inr dataType \<Rightarrow>
             (case (if dataType = Str ''PARAMETER'' then
                      (case js_prop body ''data'' of
                         Inl e \<Rightarrow> (Some e, s)
                       | Inr d \<Rightarrow>
                           (case js_prop d ''parameter'' of
                              Inl e \<Rightarrow> (Some e, s)
                            | Inr (Arr parameters) \<Rightarrow> forEachParameter env parameters s
                            | Inr other \<Rightarrow> (Some TypeError, s)))
                    else (None, s)) of
                (Some e, s1) \<Rightarrow> (Some e, s1)
              | (None, s1) \<Rightarrow>
                  if dataType = Str ''EVENT'' then deliverEvent env body s1 else (None, s1))))"

subsection \<open>Everything that can happen to a provider\<close>

datatype 'cb event =
    Subscribe string 'cb
  | Unsubscribe handle
  | Connect
  | Open
  | Message "js list"
  | Error
  | Close
  | ReconnectTimeout
  | KeepAlive

fun step :: "'cb env \<Rightarrow> 'cb event \<Rightarrow> 'cb provider \<Rightarrow> 'cb provider" where
  "step env (Subscribe k callback) s = snd (subscribe env k callback s)"
| "step env (Unsubscribe h) s = unsubscribe h s"
| "step env Connect s = connect s"
| "step env Open s = onopen env s"
| "step env (Message data) s = snd (onmessage env data s)"
| "step env Error s = onerror s"
| "step env Close s = onclose s"
| "step env ReconnectTimeout s = reconnectTimeoutFires s"
| "step env KeepAlive s = keepAliveFires env s"

definition run :: "'cb env \<Rightarrow> 'cb event list \<Rightarrow> 'cb provider \<Rightarrow> 'cb provider" where
  "run env events s = fold (step env) events s"

subsection \<open>Notions used in the statements\<close>

text \<open>
  A connection attempt that fails: the socket reports an error and then closes, and the
  reconnect timer fires.
\<close>

definition failedAttempt :: "'cb provider \<Rightarrow> 'cb provider" where
  "failedAttempt s = reconnectTimeoutFires (onclose (onerror s))"

text \<open>
  The outcomes of the next \<open>n\<close> calls of \<^verbatim>\<open>socket.send\<close>, \<open>True\<close> for a call that
  throws.
\<close>

definition send_outcomes :: "'cb provider \<Rightarrow> nat \<Rightarrow> bool list" where
  "send_outcomes s n =
     (if socketsOpened s = 0 then replicate n True
      else take n (sendThrows s @ replicate n False))"



text \<open>
  An environment for the examples: identifiers are qualified names with \<^verbatim>\<open>~\<close> in
  place of \<^verbatim>\<open>/\<close>, values and samples are passed on as they are. No example replaces
  the prototype of the registry, so the last two parameters are never consulted.
\<close>

definition example_env :: "string env" where
  "example_env =
     \<lparr>EVENTS_OBJECT_TYPE = ''yamcs.events'',
      idToQualifiedName = map (\<lambda>c. if c = CHR ''~'' then CHR ''/'' else c),
      qualifiedNameToId =
        (\<lambda>v. case v of
           Str n \<Rightarrow> Inr (map (\<lambda>c. if c = CHR ''/'' then CHR ''~'' else c) n)
         | _ \<Rightarrow> Inl TypeError),
      getValue = (\<lambda>v. Inr v),
      addLimitInformation = (\<lambda>parameter pt. Inr pt),
      functionMember = (\<lambda>f own k. None),
      functionAssign = (\<lambda>f own k. CreatesOwn)\<rparr>"

text \<open>
  A provider with two unsubscribe messages in its queue and a connection under way, for
  a given script of the socket.
\<close>

definition queued_example :: "bool list \<Rightarrow> string provider" where
  "queued_example script =
     run example_env
       [Subscribe ''yamcs.events'' ''cb1'', Subscribe ''~a'' ''cb2'',
        Unsubscribe (EventHandle ''yamcs.events''), Unsubscribe (TelemetryHandle ''~a''),
        Connect]
       (new_provider script)"

text \<open>
  A provider on an open connection with the event channel and the channel \<^verbatim>\<open>~a\<close>
  registered, a wire update for that channel, and the sample built from it.
\<close>

definition registered_example :: "string provider" where
  "registered_example =
     run example_env
       [Connect, Open, Subscribe ''yamcs.events'' ''cb1'', Subscribe ''~a'' ''cb2'',
        Subscribe ''~b'' ''cb3'', Unsubscribe (TelemetryHandle ''~b'')]
       (new_provider [])"

definition parameter_example :: js where
  "parameter_example =
     Obj [(''id'', Obj [(''name'', Str ''/a'')]),
          (''generationTimeUTC'', Str ''2020-01-01T00:00:00.000Z''),
          (''engValue'', Num 7)]"

definition point_example :: point where
  "point_example =
     \<lparr>point_id = ''~a'', timestamp = Str ''2020-01-01T00:00:00.000Z'',
      point_value = Num 7, limitInformation = []\<rparr>"





section \<open>Properties of the limit evaluator\<close>

lemma js_get_Own_nonempty_monitoring:
  "js_get MONITORING_RESULT_CSS mr = Own css \<Longrightarrow> mr \<noteq> []"
  by (auto simp: js_get_def MONITORING_RESULT_CSS_def split: if_splits option.splits)

lemma js_get_Own_nonempty_range:
  "js_get RANGE_CONDITION_CSS rc = Own suffix \<Longrightarrow> rc \<noteq> []"
  by (auto simp: js_get_def RANGE_CONDITION_CSS_def split: if_splits option.splits)

lemma evaluate_both_recognized:
  assumes "monitoringResult d = Some mr" "js_get MONITORING_RESULT_CSS mr = Own css"
    "rangeCondition d = Some rc" "js_get RANGE_CONDITION_CSS rc = Own suffix"
  shows "evaluate d = Violation (addLimitRange d mr
           \<lparr>cssClass = css @ '' '' @ suffix, name = mr, low = None, high = None\<rparr>)"
  using assms js_get_Own_nonempty_monitoring [OF assms(2)] js_get_Own_nonempty_range [OF assms(4)]
  by (simp add: evaluate_def truthy_str_def)

lemma addLimitRange_low:
  "findAlarmRange d result = Some rng \<Longrightarrow>
   low (addLimitRange d result e) =
     (if truthy_num (minExclusive rng) then minExclusive rng
      else if truthy_num (minInclusive rng) then minInclusive rng else low e)"
  by (simp add: addLimitRange_def Let_def)

lemma addLimitRange_high:
  "findAlarmRange d result = Some rng \<Longrightarrow>
   high (addLimitRange d result e) =
     (if truthy_num (maxExclusive rng) then maxExclusive rng
      else if truthy_num (maxInclusive rng) then maxInclusive rng else high e)"
  by (simp add: addLimitRange_def Let_def)

lemma addLimitRange_name: "name (addLimitRange d result e) = name e"
  by (simp add: addLimitRange_def Let_def split: option.splits)

lemma evaluate_Violation_cases:
  assumes "evaluate d = Violation r"
  shows "(low r = None \<and> high r = None) \<or>
         (\<exists>e. r = addLimitRange d (name r) e \<and> low e = None \<and> high e = None)"
proof (cases "monitoringResult d")
  case None
  with assms show ?thesis by (simp add: evaluate_def)
next
  case (Some mr)
  note mr = this
  show ?thesis
  proof (cases "js_get MONITORING_RESULT_CSS mr")
    case (Own css)
    have ne: "mr \<noteq> []" using Own by (rule js_get_Own_nonempty_monitoring)
    show ?thesis
    proof (cases "rangeCondition d")
      case None
      with assms mr Own ne show ?thesis
        by (auto simp add: evaluate_def truthy_str_def Let_def)
    next
      case (Some rc)
      note rc = this
      show ?thesis
      proof (cases "js_get RANGE_CONDITION_CSS rc")
        case (Own suffix)
        from evaluate_both_recognized [OF mr \<open>js_get MONITORING_RESULT_CSS mr = Own css\<close> rc Own] assms
        have r: "r = addLimitRange d mr
           \<lparr>cssClass = css @ '' '' @ suffix, name = mr, low = None, high = None\<rparr>"
          by simp
        then have "name r = mr" by (simp add: addLimitRange_name)
        with r show ?thesis by auto
      next
        case Inherited
        with assms mr rc \<open>js_get MONITORING_RESULT_CSS mr = Own css\<close> ne show ?thesis
          by (auto simp add: evaluate_def truthy_str_def Let_def split: if_splits)
      next
        case Missing
        with assms mr rc \<open>js_get MONITORING_RESULT_CSS mr = Own css\<close> ne show ?thesis
          by (auto simp add: evaluate_def truthy_str_def Let_def split: if_splits)
      qed
    qed
  next
    case Inherited
    with assms mr show ?thesis by (simp add: evaluate_def split: if_splits)
  next
    case Missing
    with assms mr show ?thesis by (simp add: evaluate_def split: if_splits)
  qed
qed

lemma js_get_monitoring_Missing:
  "mr \<notin> fst ` set MONITORING_RESULT_CSS \<Longrightarrow> mr \<notin> set Object_prototype_keys
   \<Longrightarrow> js_get MONITORING_RESULT_CSS mr = Missing"
  by (simp add: js_get_def map_of_eq_None_iff [THEN iffD2])

lemma evaluate_unrecognized:
  assumes "monitoringResult d = None \<or> monitoringResult d = Some [] \<or>
      (\<exists>mr. monitoringResult d = Some mr \<and> mr \<notin> fst ` set MONITORING_RESULT_CSS
         \<and> mr \<notin> set Object_prototype_keys)"
  shows "evaluate d = NoViolation"
  using assms
proof (elim disjE exE conjE)
  assume "monitoringResult d = None"
  then show ?thesis by (simp add: evaluate_def)
next
  assume "monitoringResult d = Some []"
  then show ?thesis by (simp add: evaluate_def truthy_str_def)
next
  fix mr
  assume "monitoringResult d = Some mr" "mr \<notin> fst ` set MONITORING_RESULT_CSS"
    "mr \<notin> set Object_prototype_keys"
  then show ?thesis
    by (simp add: evaluate_def js_get_monitoring_Missing)
qed

lemma evaluate_example:
  "evaluate \<lparr>monitoringResult = Some ''CRITICAL'', rangeCondition = Some ''HIGH'',
         alarmRange = Some [\<lparr>level = Some ''CRITICAL'', minInclusive = None,
           minExclusive = None, maxInclusive = Some 42, maxExclusive = None\<rparr>]\<rparr>
       = Violation \<lparr>cssClass = ''is-limit--red is-limit--upr'', name = ''CRITICAL'',
           low = None, high = Some 42\<rparr>"
  by (simp add: evaluate_def truthy_str_def js_get_def MONITORING_RESULT_CSS_def
        RANGE_CONDITION_CSS_def addLimitRange_def findAlarmRange_def truthy_num_def)

text \<open>
  Claim C7, as amended. The evaluator returns nothing for a sample whose monitoring result
  is absent, empty, or neither a key of the severity table nor the name of a member of
  \<^verbatim>\<open>Object.prototype\<close>. For the sample with monitoring result CRITICAL, range
  condition HIGH and the alarm range \<^verbatim>\<open>{level: "CRITICAL", maxInclusive: 42}\<close> it
  returns the descriptor with the style class \<^verbatim>\<open>is-limit--red is-limit--upr\<close> and
  \<open>high = 42\<close>. When both classifications are recognised and a range matches, an
  exclusive bound that is truthy is the value of \<open>low\<close> (of \<open>high\<close>), whatever the
  inclusive bound is.
\<close>

theorem evaluate_amended:
  "((monitoringResult d = None \<or> monitoringResult d = Some [] \<or>
      (\<exists>mr. monitoringResult d = Some mr \<and> mr \<notin> fst ` set MONITORING_RESULT_CSS
         \<and> mr \<notin> set Object_prototype_keys))
     \<longrightarrow> evaluate d = NoViolation)
   \<and> evaluate \<lparr>monitoringResult = Some ''CRITICAL'', rangeCondition = Some ''HIGH'',
         alarmRange = Some [\<lparr>level = Some ''CRITICAL'', minInclusive = None,
           minExclusive = None, maxInclusive = Some 42, maxExclusive = None\<rparr>]\<rparr>
       = Violation \<lparr>cssClass = ''is-limit--red is-limit--upr'', name = ''CRITICAL'',
           low = None, high = Some 42\<rparr>
   \<and> (monitoringResult d' = Some mr' \<and> js_get MONITORING_RESULT_CSS mr' = Own css
        \<and> rangeCondition d' = Some rc \<and> js_get RANGE_CONDITION_CSS rc = Own suffix
        \<and> findAlarmRange d' mr' = Some rng
      \<longrightarrow> (\<exists>r. evaluate d' = Violation r
             \<and> (truthy_num (minExclusive rng) \<longrightarrow> low r = minExclusive rng)
             \<and> (truthy_num (maxExclusive rng) \<longrightarrow> high r = maxExclusive rng)))"
proof (intro conjI impI)
  assume "monitoringResult d = None \<or> monitoringResult d = Some [] \<or>
      (\<exists>mr. monitoringResult d = Some mr \<and> mr \<notin> fst ` set MONITORING_RESULT_CSS
         \<and> mr \<notin> set Object_prototype_keys)"
  then show "evaluate d = NoViolation" by (rule evaluate_unrecognized)
next
  show "evaluate \<lparr>monitoringResult = Some ''CRITICAL'', rangeCondition = Some ''HIGH'',
         alarmRange = Some [\<lparr>level = Some ''CRITICAL'', minInclusive = None,
           minExclusive = None, maxInclusive = Some 42, maxExclusive = None\<rparr>]\<rparr>
       = Violation \<lparr>cssClass = ''is-limit--red is-limit--upr'', name = ''CRITICAL'',
           low = None, high = Some 42\<rparr>"
    by (rule evaluate_example)
next
  assume a: "monitoringResult d' = Some mr' \<and> js_get MONITORING_RESULT_CSS mr' = Own css
        \<and> rangeCondition d' = Some rc \<and> js_get RANGE_CONDITION_CSS rc = Own suffix
        \<and> findAlarmRange d' mr' = Some rng"
  then have "evaluate d' = Violation (addLimitRange d' mr'
           \<lparr>cssClass = css @ '' '' @ suffix, name = mr', low = None, high = None\<rparr>)"
    by (simp add: evaluate_both_recognized)
  moreover from a have "findAlarmRange d' mr' = Some rng" by simp
  ultimately show "\<exists>r. evaluate d' = Violation r
             \<and> (truthy_num (minExclusive rng) \<longrightarrow> low r = minExclusive rng)
             \<and> (truthy_num (maxExclusive rng) \<longrightarrow> high r = maxExclusive rng)"
    by (simp add: addLimitRange_low addLimitRange_high)
qed

text \<open>
  The three parts at concrete samples: an unrecognised classification, and a range with
  both a minimum of 5 (inclusive) and of 7 (exclusive).
\<close>

theorem evaluate_amended_witness:
  "evaluate \<lparr>monitoringResult = Some ''IN_LIMITS'', rangeCondition = None, alarmRange = None\<rparr>
     = NoViolation
   \<and> (\<exists>r. evaluate \<lparr>monitoringResult = Some ''WATCH'', rangeCondition = Some ''LOW'',
         alarmRange = Some [\<lparr>level = Some ''WATCH'', minInclusive = Some 5,
           minExclusive = Some 7, maxInclusive = None, maxExclusive = None\<rparr>]\<rparr> = Violation r
        \<and> low r = Some 7)"
proof -
  let ?d = "\<lparr>monitoringResult = Some ''IN_LIMITS'', rangeCondition = None, alarmRange = None\<rparr>"
  let ?rng = "\<lparr>level = Some ''WATCH'', minInclusive = Some 5,
           minExclusive = Some 7, maxInclusive = None, maxExclusive = None\<rparr>"
  let ?d' = "\<lparr>monitoringResult = Some ''WATCH'', rangeCondition = Some ''LOW'',
         alarmRange = Some [?rng]\<rparr>"
  have h1: "monitoringResult ?d = None \<or> monitoringResult ?d = Some [] \<or>
      (\<exists>mr. monitoringResult ?d = Some mr \<and> mr \<notin> fst ` set MONITORING_RESULT_CSS
         \<and> mr \<notin> set Object_prototype_keys)"
    by (simp add: MONITORING_RESULT_CSS_def Object_prototype_keys_def)
  have h2: "monitoringResult ?d' = Some ''WATCH''
        \<and> js_get MONITORING_RESULT_CSS ''WATCH'' = Own ''is-limit--yellow''
        \<and> rangeCondition ?d' = Some ''LOW''
        \<and> js_get RANGE_CONDITION_CSS ''LOW'' = Own ''is-limit--lwr''
        \<and> findAlarmRange ?d' ''WATCH'' = Some ?rng"
    by (simp add: js_get_def MONITORING_RESULT_CSS_def RANGE_CONDITION_CSS_def
        findAlarmRange_def)
  have h3: "truthy_num (minExclusive ?rng)" by (simp add: truthy_num_def)
  from evaluate_amended [of ?d ?d' "''WATCH''" "''is-limit--yellow''" "''LOW''"
      "''is-limit--lwr''" ?rng] h1 h2 h3
  show ?thesis by auto
qed

text \<open>
  Claim C7 as it was stated fails twice. The classification \<^verbatim>\<open>toString\<close> is not a
  severity, yet \<^verbatim>\<open>"toString" in MONITORING_RESULT_CSS\<close> holds and a descriptor is
  returned. And an exclusive bound of 0 does not overwrite an inclusive bound of 5.
\<close>

theorem evaluate_claim_counterexample:
  "evaluate \<lparr>monitoringResult = Some ''toString'', rangeCondition = None, alarmRange = None\<rparr>
     = InheritedStyle
   \<and> evaluate \<lparr>monitoringResult = Some ''CRITICAL'', rangeCondition = Some ''LOW'',
         alarmRange = Some [\<lparr>level = Some ''CRITICAL'', minInclusive = Some 5,
           minExclusive = Some 0, maxInclusive = None, maxExclusive = None\<rparr>]\<rparr>
       = Violation \<lparr>cssClass = ''is-limit--red is-limit--lwr'', name = ''CRITICAL'',
           low = Some 5, high = None\<rparr>"
  by (simp add: evaluate_def truthy_str_def js_get_def MONITORING_RESULT_CSS_def
        RANGE_CONDITION_CSS_def addLimitRange_def findAlarmRange_def truthy_num_def
        Object_prototype_keys_def)

text \<open>
  Claim C10. In the descriptor returned for a sample whose alarm range matches, \<open>low\<close> is
  not set when each of the minimum bounds is 0 or absent, \<open>high\<close> is not set when each of
  the maximum bounds is 0 or absent, and a bound of 0 is never the value of \<open>low\<close> or
  \<open>high\<close>.
\<close>

theorem zero_bound_omitted:
  assumes "evaluate d = Violation r" and "findAlarmRange d (name r) = Some rng"
  shows "(minInclusive rng \<in> {None, Some 0} \<and> minExclusive rng \<in> {None, Some 0} \<longrightarrow> low r = None)
       \<and> (maxInclusive rng \<in> {None, Some 0} \<and> maxExclusive rng \<in> {None, Some 0} \<longrightarrow> high r = None)
       \<and> low r \<noteq> Some 0 \<and> high r \<noteq> Some 0"
proof -
  have t: "\<And>v. truthy_num v \<longleftrightarrow> v \<notin> {None, Some 0}"
    by (simp add: truthy_num_def split: option.splits)
  from evaluate_Violation_cases [OF assms(1)] show ?thesis
  proof (elim disjE exE conjE)
    assume "low r = None" "high r = None"
    then show ?thesis by simp
  next
    fix e
    assume e: "r = addLimitRange d (name r) e" "low e = None" "high e = None"
    have l: "low r = (if truthy_num (minExclusive rng) then minExclusive rng
             else if truthy_num (minInclusive rng) then minInclusive rng else None)"
      using addLimitRange_low [OF assms(2), of e] e by simp
    have h: "high r = (if truthy_num (maxExclusive rng) then maxExclusive rng
             else if truthy_num (maxInclusive rng) then maxInclusive rng else None)"
      using addLimitRange_high [OF assms(2), of e] e by simp
    show ?thesis
      unfolding l h t by auto
  qed
qed

text \<open>The range \<^verbatim>\<open>{level: "CRITICAL", maxInclusive: 0}\<close>: no bound is attached.\<close>

theorem zero_bound_omitted_witness:
  "low \<lparr>cssClass = ''is-limit--red is-limit--upr'', name = ''CRITICAL'',
           low = None, high = None\<rparr> = None
   \<and> evaluate \<lparr>monitoringResult = Some ''CRITICAL'', rangeCondition = Some ''HIGH'',
         alarmRange = Some [\<lparr>level = Some ''CRITICAL'', minInclusive = None,
           minExclusive = None, maxInclusive = Some 0, maxExclusive = None\<rparr>]\<rparr>
       = Violation \<lparr>cssClass = ''is-limit--red is-limit--upr'', name = ''CRITICAL'',
           low = None, high = None\<rparr>"
proof -
  let ?rng = "\<lparr>level = Some ''CRITICAL'', minInclusive = None,
           minExclusive = None, maxInclusive = Some 0, maxExclusive = None\<rparr>"
  let ?d = "\<lparr>monitoringResult = Some ''CRITICAL'', rangeCondition = Some ''HIGH'',
         alarmRange = Some [?rng]\<rparr>"
  obtain r where r: "evaluate ?d = Violation r" and n: "name r = ''CRITICAL''"
    and c: "cssClass r = ''is-limit--red is-limit--upr''"
    by (simp add: evaluate_def truthy_str_def js_get_def MONITORING_RESULT_CSS_def
        RANGE_CONDITION_CSS_def addLimitRange_def findAlarmRange_def truthy_num_def)
  have f: "findAlarmRange ?d (name r) = Some ?rng"
    by (simp add: n findAlarmRange_def)
  from zero_bound_omitted [OF r f] have "low r = None" "high r = None" by simp_all
  with n c have "r = \<lparr>cssClass = ''is-limit--red is-limit--upr'', name = ''CRITICAL'',
           low = None, high = None\<rparr>" by simp
  with r show ?thesis by simp
qed

section \<open>Properties of the provider\<close>

subsection \<open>What each operation leaves alone\<close>

lemma sendRequest_fields [simp]:
  "seqNo (snd (sendRequest r s)) = seqNo s + 1"
  "connected (snd (sendRequest r s)) = connected s"
  "listener (snd (sendRequest r s)) = listener s"
  "requests (snd (sendRequest r s)) = requests s"
  "currentWaitIndex (snd (sendRequest r s)) = currentWaitIndex s"
  "reconnectTimeout (snd (sendRequest r s)) = reconnectTimeout s"
  "socketsOpened (snd (sendRequest r s)) = socketsOpened s"
  "timeoutPending (snd (sendRequest r s)) = timeoutPending s"
  "timeoutDelays (snd (sendRequest r s)) = timeoutDelays s"
  "keepAliveIntervals (snd (sendRequest r s)) = keepAliveIntervals s"
  "delivered (snd (sendRequest r s)) = delivered s"
  by (simp_all add: sendRequest_def Let_def split: list.splits)

lemma sendRequest_socketSent:
  "socketSent (snd (sendRequest r s)) =
     (if fst (sendRequest r s) = None then socketSent s @ [frame (seqNo s + 1) r]
      else socketSent s)"
  by (simp add: sendRequest_def Let_def split: list.splits)

lemma take_append_replicate_Suc:
  "take n (xs @ replicate (Suc n) x) = take n (xs @ replicate n x)"
  by (simp add: min_def del: replicate.simps)

lemma send_outcomes_Suc:
  "send_outcomes s (Suc n) =
     (if socketsOpened s = 0 then True # replicate n True
      else case sendThrows s of
             [] \<Rightarrow> False # replicate n False
           | t # ts \<Rightarrow> t # take n (ts @ replicate n False))"
  unfolding send_outcomes_def
  by (cases "sendThrows s") (simp_all add: take_append_replicate_Suc del: replicate.simps, simp_all)

lemma sendRequest_outcome:
  "send_outcomes s (Suc n) =
     (fst (sendRequest r s) \<noteq> None) # send_outcomes (snd (sendRequest r s)) n"
  by (subst send_outcomes_Suc)
    (simp add: sendRequest_def Let_def send_outcomes_def split: list.splits)

lemma send_outcomes_connected [simp]:
  "send_outcomes (s\<lparr>connected := c\<rparr>) n = send_outcomes s n"
  by (simp add: send_outcomes_def)

lemma reconnect_fields [simp]:
  "seqNo (reconnect s) = seqNo s"
  "connected (reconnect s) = connected s"
  "listener (reconnect s) = listener s"
  "requests (reconnect s) = requests s"
  "socketsOpened (reconnect s) = socketsOpened s"
  "socketSent (reconnect s) = socketSent s"
  "sendThrows (reconnect s) = sendThrows s"
  "keepAliveIntervals (reconnect s) = keepAliveIntervals s"
  "delivered (reconnect s) = delivered s"
  by (simp_all add: reconnect_def Let_def)

lemma reconnect_scheduled [simp]: "reconnectTimeout (reconnect s) \<noteq> None"
  by (simp add: reconnect_def Let_def)

lemma sendOrQueueRequest_alt:
  "sendOrQueueRequest r s =
     (if connected s then
        (if fst (sendRequest r s) = None then (True, snd (sendRequest r s))
         else (False, reconnect ((snd (sendRequest r s))
                 \<lparr>connected := False, requests := requests s @ [r]\<rparr>)))
      else (False, s\<lparr>requests := requests s @ [r]\<rparr>))"
proof (cases "sendRequest r s")
  case (Pair e s1)
  then have "requests s1 = requests s"
    using sendRequest_fields(4) [of r s] by simp
  with Pair show ?thesis
    by (cases e) (simp_all add: sendOrQueueRequest_def)
qed

lemma sendOrQueueRequest_fields [simp]:
  "listener (snd (sendOrQueueRequest r s)) = listener s"
  "socketsOpened (snd (sendOrQueueRequest r s)) = socketsOpened s"
  "keepAliveIntervals (snd (sendOrQueueRequest r s)) = keepAliveIntervals s"
  "delivered (snd (sendOrQueueRequest r s)) = delivered s"
  by (simp_all add: sendOrQueueRequest_alt)


lemma sendOrQueueRequest_disconnected:
  "\<not> connected s \<Longrightarrow> sendOrQueueRequest r s = (False, s\<lparr>requests := requests s @ [r]\<rparr>)"
  by (simp add: sendOrQueueRequest_def)

lemma flushLoop_Cons:
  "flushLoop (r # rest) s =
     (if fst (sendRequest r s) = None then flushLoop rest (snd (sendRequest r s))
      else (r # fst (flushLoop rest ((snd (sendRequest r s))\<lparr>connected := False\<rparr>)), True,
            snd (snd (flushLoop rest ((snd (sendRequest r s))\<lparr>connected := False\<rparr>)))))"
  by (cases "sendRequest r s") (auto split: option.splits prod.splits)

lemma flushLoop_kept:
  "fst (flushLoop rs s) = map fst (filter snd (zip rs (send_outcomes s (length rs))))"
proof (induction rs arbitrary: s)
  case Nil
  show ?case by simp
next
  case (Cons r rest)
  show ?case
    by (simp only: flushLoop_Cons length_Cons sendRequest_outcome [of s "length rest" r])
      (simp add: Cons.IH)
qed

lemma flushLoop_flag:
  "fst (snd (flushLoop rs s)) = (True \<in> set (send_outcomes s (length rs)))"
proof (induction rs arbitrary: s)
  case Nil
  show ?case by (simp add: send_outcomes_def)
next
  case (Cons r rest)
  show ?case
    by (simp only: flushLoop_Cons length_Cons sendRequest_outcome [of s "length rest" r])
      (simp add: Cons.IH)
qed

lemma flushLoop_seqNo:
  "seqNo (snd (snd (flushLoop rs s))) = seqNo s + length rs"
proof (induction rs arbitrary: s)
  case Nil
  show ?case by simp
next
  case (Cons r rest)
  show ?case
    by (simp only: flushLoop_Cons) (simp add: Cons.IH)
qed

lemma flushLoop_connected:
  "connected (snd (snd (flushLoop rs s))) =
     (connected s \<and> True \<notin> set (send_outcomes s (length rs)))"
proof (induction rs arbitrary: s)
  case Nil
  show ?case by (simp add: send_outcomes_def)
next
  case (Cons r rest)
  show ?case
    by (simp only: flushLoop_Cons length_Cons sendRequest_outcome [of s "length rest" r])
      (simp add: Cons.IH)
qed

lemma flushLoop_fields_all:
  "listener (snd (snd (flushLoop rs s))) = listener s
   \<and> requests (snd (snd (flushLoop rs s))) = requests s
   \<and> currentWaitIndex (snd (snd (flushLoop rs s))) = currentWaitIndex s
   \<and> reconnectTimeout (snd (snd (flushLoop rs s))) = reconnectTimeout s
   \<and> socketsOpened (snd (snd (flushLoop rs s))) = socketsOpened s
   \<and> timeoutPending (snd (snd (flushLoop rs s))) = timeoutPending s
   \<and> timeoutDelays (snd (snd (flushLoop rs s))) = timeoutDelays s
   \<and> keepAliveIntervals (snd (snd (flushLoop rs s))) = keepAliveIntervals s
   \<and> delivered (snd (snd (flushLoop rs s))) = delivered s"
proof (induction rs arbitrary: s)
  case Nil
  show ?case by simp
next
  case (Cons r rest)
  show ?case
    by (simp only: flushLoop_Cons) (simp add: Cons.IH)
qed

lemma flushLoop_fields [simp]:
  "listener (snd (snd (flushLoop rs s))) = listener s"
  "requests (snd (snd (flushLoop rs s))) = requests s"
  "currentWaitIndex (snd (snd (flushLoop rs s))) = currentWaitIndex s"
  "reconnectTimeout (snd (snd (flushLoop rs s))) = reconnectTimeout s"
  "socketsOpened (snd (snd (flushLoop rs s))) = socketsOpened s"
  "timeoutPending (snd (snd (flushLoop rs s))) = timeoutPending s"
  "timeoutDelays (snd (snd (flushLoop rs s))) = timeoutDelays s"
  "keepAliveIntervals (snd (snd (flushLoop rs s))) = keepAliveIntervals s"
  "delivered (snd (snd (flushLoop rs s))) = delivered s"
  using flushLoop_fields_all [of rs s] by simp_all

lemma upt_add_Suc: "[a ..< a + Suc n] = a # [Suc a ..< Suc a + n]"
  by (subst upt_conv_Cons) simp_all

text \<open>The requests that were sent, with the sequence numbers of their attempts.\<close>

lemma flushLoop_socketSent:
  "socketSent (snd (snd (flushLoop rs s))) =
     socketSent s @ map (\<lambda>(i, r, t). frame i r)
       (filter (\<lambda>(i, r, t). \<not> t)
          (zip [Suc (seqNo s) ..< Suc (seqNo s) + length rs]
             (zip rs (send_outcomes s (length rs)))))"
proof (induction rs arbitrary: s)
  case Nil
  show ?case by simp
next
  case (Cons r rest)
  show ?case
    by (simp only: flushLoop_Cons upt_add_Suc length_Cons
          sendRequest_outcome [of s "length rest" r])
      (simp add: Cons.IH sendRequest_socketSent)
qed

lemma message_fields [simp]:
  "listener (tlmSubscribe n s) = listener s"
  "keepAliveIntervals (tlmSubscribe n s) = keepAliveIntervals s"
  "listener (eventSubscribe s) = listener s"
  "keepAliveIntervals (eventSubscribe s) = keepAliveIntervals s"
  "listener (tlmUnsubscribe m s) = listener s"
  "keepAliveIntervals (tlmUnsubscribe m s) = keepAliveIntervals s"
  "listener (eventUnsubscribe s) = listener s"
  "keepAliveIntervals (eventUnsubscribe s) = keepAliveIntervals s"
  "listener (idleTlmSubscribe s) = listener s"
  "keepAliveIntervals (idleTlmSubscribe s) = keepAliveIntervals s"
  by (simp_all add: tlmSubscribe_def eventSubscribe_def tlmUnsubscribe_def
      eventUnsubscribe_def idleTlmSubscribe_def)

lemma fold_fields:
  assumes "\<And>k s. listener (f k s) = listener s"
    and "\<And>k s. keepAliveIntervals (f k s) = keepAliveIntervals s"
  shows "listener (fold f ks s) = listener s \<and>
         keepAliveIntervals (fold f ks s) = keepAliveIntervals s"
  by (induction ks arbitrary: s) (simp_all add: assms)

lemma sweep_fields [simp]:
  "listener (resubscribeToAll env s) = listener s"
  "keepAliveIntervals (resubscribeToAll env s) = keepAliveIntervals s"
  "listener (idleSubscribe env s) = listener s"
  "keepAliveIntervals (idleSubscribe env s) = keepAliveIntervals s"
  unfolding resubscribeToAll_def idleSubscribe_def
  by (simp_all add: fold_fields)

lemma flushQueue_fields [simp]:
  "listener (flushQueue s) = listener s"
  "keepAliveIntervals (flushQueue s) = keepAliveIntervals s"
  by (simp_all add: flushQueue_def Let_def split: prod.splits)
    (metis flushLoop_fields(1) snd_conv, metis flushLoop_fields(8) snd_conv)

lemma connection_fields [simp]:
  "listener (connect s) = listener s"
  "keepAliveIntervals (connect s) = keepAliveIntervals s"
  "listener (clearTimeout s) = listener s"
  "keepAliveIntervals (clearTimeout s) = keepAliveIntervals s"
  "listener (onerror s) = listener s"
  "keepAliveIntervals (onerror s) = keepAliveIntervals s"
  "listener (onclose s) = listener s"
  "keepAliveIntervals (onclose s) = keepAliveIntervals s"
  "listener (reconnectTimeoutFires s) = listener s"
  "keepAliveIntervals (reconnectTimeoutFires s) = keepAliveIntervals s"
  "listener (keepAliveFires env s) = listener s"
  "keepAliveIntervals (keepAliveFires env s) = keepAliveIntervals s"
  by (simp_all add: connect_def clearTimeout_def onerror_def onclose_def
      reconnectTimeoutFires_def keepAliveFires_def split: option.splits)

lemma onopen_fields [simp]:
  "listener (onopen env s) = listener s"
  "keepAliveIntervals (onopen env s) = keepAliveIntervals s + 1"
  by (simp_all add: onopen_def Let_def)

lemma disconnect_fields [simp]:
  "\<not> connected (onerror s)" "\<not> connected (onclose s)"
  by (simp_all add: onerror_def onclose_def)

lemma assignListener_cases:
  obtains (throws) e where "assignListener env k callback s = Inl e"
  | (stores) "assignListener env k callback s =
                Inr (s\<lparr>listener := AList.update k callback (listener s)\<rparr>)"
  | (prototype) "assignListener env k callback s = Inr (s\<lparr>listenerProto := Some callback\<rparr>)"
      "k \<notin> fst ` set (listener s)"
  | (ignored) "assignListener env k callback s = Inr s" "k \<notin> fst ` set (listener s)"
  unfolding assignListener_def
  by (cases "k \<in> fst ` set (listener s)"; cases "listenerProto s";
      cases "functionAssign env (the (listenerProto s)) (listener s) k"; simp; metis)

lemma assignListener_own:
  "k \<in> fst ` set (listener s) \<Longrightarrow>
   assignListener env k callback s = Inr (s\<lparr>listener := AList.update k callback (listener s)\<rparr>)"
  by (simp add: assignListener_def)

lemma assignListener_new:
  "listenerProto s = None \<Longrightarrow> k \<noteq> ''__proto__'' \<Longrightarrow>
   assignListener env k callback s = Inr (s\<lparr>listener := AList.update k callback (listener s)\<rparr>)"
  by (simp add: assignListener_def)

lemma subscribe_after_assign:
  "assignListener env k callback s = Inr s1 \<Longrightarrow>
   listener (snd (subscribe env k callback s)) = listener s1
   \<and> keepAliveIntervals (snd (subscribe env k callback s)) = keepAliveIntervals s1"
  by (simp add: subscribe_def subscribeToEvent_def subscribeToTelemetry_def)

lemma subscribe_keepAlive [simp]:
  "keepAliveIntervals (snd (subscribe env k callback s)) = keepAliveIntervals s"
  by (cases rule: assignListener_cases [of env k callback s])
    (simp_all add: subscribe_def subscribeToEvent_def subscribeToTelemetry_def)


lemma subscribe_listener_own:
  "k \<in> fst ` set (listener s) \<Longrightarrow>
   listener (snd (subscribe env k callback s)) = AList.update k callback (listener s)"
  using subscribe_after_assign [OF assignListener_own] by fastforce

lemma unsubscribe_fields [simp]:
  "listener (unsubscribe (TelemetryHandle k) s) = AList.delete k (listener s)"
  "listener (unsubscribe (EventHandle k) s) = AList.delete k (listener s)"
  "keepAliveIntervals (unsubscribe h s) = keepAliveIntervals s"
  by (cases h; simp add: Let_def)+

lemma dispatch_fields [simp]:
  "listener (snd (dispatch env pt s)) = listener s"
  "keepAliveIntervals (snd (dispatch env pt s)) = keepAliveIntervals s"
  by (simp_all add: dispatch_def split: option.splits prod.splits)

lemma deliverParameter_fields [simp]:
  "listener (snd (deliverParameter env parameter s)) = listener s"
  "keepAliveIntervals (snd (deliverParameter env parameter s)) = keepAliveIntervals s"
  by (simp_all add: deliverParameter_def split: sum.splits)

lemma forEachParameter_Cons:
  "forEachParameter env (p # ps) s =
     (if fst (deliverParameter env p s) = None
      then forEachParameter env ps (snd (deliverParameter env p s))
      else deliverParameter env p s)"
  by (cases "deliverParameter env p s") (auto split: option.splits)

lemma forEachParameter_fields [simp]:
  "listener (snd (forEachParameter env ps s)) = listener s \<and>
   keepAliveIntervals (snd (forEachParameter env ps s)) = keepAliveIntervals s"
proof (induction ps arbitrary: s)
  case Nil
  show ?case by simp
next
  case (Cons p ps)
  show ?case
    by (simp only: forEachParameter_Cons) (simp add: Cons.IH)
qed

lemma deliverEvent_fields [simp]:
  "listener (snd (deliverEvent env body s)) = listener s"
  "keepAliveIntervals (snd (deliverEvent env body s)) = keepAliveIntervals s"
  by (simp_all add: deliverEvent_def split: option.splits sum.splits prod.splits)

lemma onmessage_fields [simp]:
  "listener (snd (onmessage env data s)) = listener s"
  "keepAliveIntervals (snd (onmessage env data s)) = keepAliveIntervals s"
proof -
  have "listener (snd (onmessage env data s)) = listener s \<and>
        keepAliveIntervals (snd (onmessage env data s)) = keepAliveIntervals s"
  proof (cases "length data < 4")
    case True
    then show ?thesis by (simp add: onmessage_def)
  next
    case False
    show ?thesis
    proof (cases "js_prop (data ! 3) ''dt''")
      case (Inl e)
      with False show ?thesis by (simp add: onmessage_def)
    next
      case (Inr dataType)
      define r where "r =
        (if dataType = Str ''PARAMETER'' then
           (case js_prop (data ! 3) ''data'' of
              Inl e \<Rightarrow> (Some e, s)
            | Inr d \<Rightarrow>
                (case js_prop d ''parameter'' of
                   Inl e \<Rightarrow> (Some e, s)
                 | Inr (Arr parameters) \<Rightarrow> forEachParameter env parameters s
                 | Inr other \<Rightarrow> (Some TypeError, s)))
         else (None, s))"
      have r: "listener (snd r) = listener s \<and> keepAliveIntervals (snd r) = keepAliveIntervals s"
        unfolding r_def using forEachParameter_fields
        by (simp split: sum.splits js.splits)
      have "onmessage env data s =
        (case r of (Some e, s1) \<Rightarrow> (Some e, s1)
         | (None, s1) \<Rightarrow>
             if dataType = Str ''EVENT'' then deliverEvent env (data ! 3) s1 else (None, s1))"
        using False Inr by (simp add: onmessage_def r_def Let_def)
      then show ?thesis
        using r by (cases r) (auto split: option.splits)
    qed
  qed
  then show "listener (snd (onmessage env data s)) = listener s"
    and "keepAliveIntervals (snd (onmessage env data s)) = keepAliveIntervals s"
    by simp_all
qed

lemma step_keepAlive:
  "keepAliveIntervals (step env e s) =
     (case e of Open \<Rightarrow> keepAliveIntervals s + 1 | _ \<Rightarrow> keepAliveIntervals s)"
  by (cases e) simp_all




subsection \<open>Unfolding the model on examples\<close>

lemmas provider_defs =
  run_def subscribe_def assignListener_def subscribeToEvent_def subscribeToTelemetry_def
  tlmSubscribe_def eventSubscribe_def tlmUnsubscribe_def eventUnsubscribe_def idleTlmSubscribe_def
  sendOrQueueRequest_def sendRequest_def reconnect_def connect_def new_provider_def
  onopen_def onclose_def onerror_def clearTimeout_def resubscribeToAll_def idleSubscribe_def
  flushQueue_def reconnectTimeoutFires_def keepAliveFires_def wait_at_def
  FALLBACK_AND_WAIT_MS_def Object_keys_def is_array_index_def is_digit_def example_env_def
  Let_def numeral_2_eq_2 numeral_3_eq_3

subsection \<open>Draining the queue\<close>

lemma flushQueue_alt:
  "flushQueue s =
     (if fst (snd (flushLoop (requests s) s))
      then reconnect ((snd (snd (flushLoop (requests s) s)))
             \<lparr>requests := fst (flushLoop (requests s) s)\<rparr>)
      else (snd (snd (flushLoop (requests s) s)))\<lparr>requests := fst (flushLoop (requests s) s)\<rparr>)"
  by (simp add: flushQueue_def Let_def split: prod.splits)

lemma filter_snd_zip_empty: "True \<notin> set os \<Longrightarrow> filter snd (zip rs os) = []"
  by (auto simp add: filter_empty_conv dest: set_zip_rightD)

text \<open>
  Claim C2, as amended. Draining attempts a send for every queued request, in the order of
  the queue, also after a send has failed: the sequence number advances by the length of
  the queue. The requests whose send failed stay queued, in order; the requests whose
  send succeeded are removed and were sent, in order, each under the sequence number of
  its attempt. When a send failed the provider is disconnected and a reconnect is
  scheduled; when none failed the queue is empty and the connection state and the timer
  are as before.
\<close>

theorem flushQueue_amended:
  "requests (flushQueue s) =
     map fst (filter snd (zip (requests s) (send_outcomes s (length (requests s)))))
   \<and> seqNo (flushQueue s) = seqNo s + length (requests s)
   \<and> socketSent (flushQueue s) =
       socketSent s @ map (\<lambda>(i, r, t). frame i r)
         (filter (\<lambda>(i, r, t). \<not> t)
            (zip [Suc (seqNo s) ..< Suc (seqNo s) + length (requests s)]
               (zip (requests s) (send_outcomes s (length (requests s))))))
   \<and> connected (flushQueue s) =
       (connected s \<and> True \<notin> set (send_outcomes s (length (requests s))))
   \<and> (True \<in> set (send_outcomes s (length (requests s)))
        \<longrightarrow> reconnectTimeout (flushQueue s) \<noteq> None)
   \<and> (True \<notin> set (send_outcomes s (length (requests s)))
        \<longrightarrow> requests (flushQueue s) = [] \<and> reconnectTimeout (flushQueue s) = reconnectTimeout s)"
  by (simp add: flushQueue_alt flushLoop_kept flushLoop_flag flushLoop_seqNo
      flushLoop_socketSent flushLoop_connected filter_snd_zip_empty)

text \<open>
  A queue of two requests of which the second cannot be sent.
\<close>

theorem flushQueue_amended_witness:
  "requests (flushQueue (queued_example [False, True])) = [tlm_unsubscribe_request None]
   \<and> socketSent (flushQueue (queued_example [False, True])) = [frame 1 event_unsubscribe_request]
   \<and> seqNo (flushQueue (queued_example [False, True])) = 2
   \<and> \<not> connected (flushQueue (queued_example [False, True]))
   \<and> reconnectTimeout (flushQueue (queued_example [False, True])) \<noteq> None"
proof -
  have q: "requests (queued_example [False, True]) =
             [event_unsubscribe_request, tlm_unsubscribe_request None]"
    "seqNo (queued_example [False, True]) = 0"
    "socketSent (queued_example [False, True]) = []"
    "send_outcomes (queued_example [False, True]) (Suc (Suc 0)) = [False, True]"
    by (simp_all add: queued_example_def send_outcomes_def provider_defs)
  show ?thesis
    using flushQueue_amended [of "queued_example [False, True]"]
    by (simp add: q upt_rec)
qed

text \<open>
  Claim C2 as it was stated fails: when the first of two queued requests cannot be sent,
  the second is still attempted, is sent under sequence number 2 and leaves the queue.
\<close>

theorem flushQueue_claim_counterexample:
  "requests (queued_example [True, False]) =
     [event_unsubscribe_request, tlm_unsubscribe_request None]
   \<and> requests (onopen example_env (queued_example [True, False])) = [event_unsubscribe_request]
   \<and> socketSent (onopen example_env (queued_example [True, False])) =
       [frame 2 (tlm_unsubscribe_request None)]"
  by (simp add: queued_example_def provider_defs)

subsection \<open>The reconnect delays\<close>

lemma failedAttempt_fields:
  assumes "reconnectTimeout s = None"
  shows "reconnectTimeout (failedAttempt s) = None"
    and "currentWaitIndex (failedAttempt s) =
           (if currentWaitIndex s < length FALLBACK_AND_WAIT_MS then currentWaitIndex s + 1
            else currentWaitIndex s)"
    and "timeoutDelays (failedAttempt s) = timeoutDelays s @ [wait_at (currentWaitIndex s)]"
  using assms
  by (simp_all add: failedAttempt_def onerror_def onclose_def reconnect_def
      reconnectTimeoutFires_def connect_def Let_def)

lemma failedAttempts_state:
  fixes script :: "bool list"
  defines "s \<equiv> \<lambda>n. (failedAttempt ^^ n) (connect (new_provider script))"
  shows "reconnectTimeout (s n) = None
       \<and> currentWaitIndex (s n) = min n (length FALLBACK_AND_WAIT_MS)
       \<and> timeoutDelays (s n) =
           map (\<lambda>i. wait_at (min i (length FALLBACK_AND_WAIT_MS))) [0..<n]"
proof (induction n)
  case 0
  show ?case by (simp add: s_def connect_def new_provider_def)
next
  case (Suc n)
  have step: "s (Suc n) = failedAttempt (s n)" by (simp add: s_def)
  from Suc have r: "reconnectTimeout (s n) = None" by simp
  show ?case
    unfolding step using Suc
    by (auto simp add: failedAttempt_fields [OF r] min_def)
qed

text \<open>
  Claim C3 at seven connection attempts that fail in a row, from a new provider: the
  seventh delay is \<^verbatim>\<open>FALLBACK_AND_WAIT_MS[6]\<close>, which is \<^verbatim>\<open>undefined\<close>, and not the
  last duration of the sequence.
\<close>

theorem seventh_delay_undefined:
  "timeoutDelays ((failedAttempt ^^ 7) (connect (new_provider script)))
     = [Ms 1000, Ms 5000, Ms 5000, Ms 10000, Ms 10000, Ms 30000, UndefinedDelay]"
  by (simp add: failedAttempts_state wait_at_def FALLBACK_AND_WAIT_MS_def upt_rec)

subsection \<open>The keepalive timer\<close>

text \<open>
  Claim C4, as amended. A keepalive timer is started by every open and is never stopped:
  after a transport error and after a close the provider is disconnected and the timers
  that were armed are still armed, and nothing else that can happen to a provider stops a
  keepalive timer either. So a timer can be armed while the provider is not connected.
\<close>

theorem keepalive_never_stopped:
  "keepAliveIntervals (onopen env s) = keepAliveIntervals s + 1
   \<and> keepAliveIntervals (onerror s) = keepAliveIntervals s \<and> \<not> connected (onerror s)
   \<and> keepAliveIntervals (onclose s) = keepAliveIntervals s \<and> \<not> connected (onclose s)
   \<and> keepAliveIntervals s \<le> keepAliveIntervals (step env e s)"
  by (simp add: step_keepAlive split: event.splits)

text \<open>
  Claim C4 as it was stated fails: after connect, open and close the provider is
  disconnected and its keepalive timer is armed.
\<close>

theorem keepalive_claim_counterexample:
  "keepAliveIntervals (run example_env [Connect, Open, Close] (new_provider [] :: string provider)) = 1
   \<and> \<not> connected (run example_env [Connect, Open, Close] (new_provider [] :: string provider))"
  by (simp add: provider_defs)

subsection \<open>The sweep and the drain of an open\<close>

lemma set_Object_keys: "set (Object_keys obj) = fst ` set obj"
  by (auto simp add: Object_keys_def)


lemma queue_all_disconnected:
  assumes "\<not> connected s"
  shows "\<not> connected (fold (\<lambda>k s'. snd (sendOrQueueRequest (g k) s')) ks s)
       \<and> requests (fold (\<lambda>k s'. snd (sendOrQueueRequest (g k) s')) ks s) = requests s @ map g ks
       \<and> socketSent (fold (\<lambda>k s'. snd (sendOrQueueRequest (g k) s')) ks s) = socketSent s"
  using assms
proof (induction ks arbitrary: s)
  case Nil
  then show ?case by simp
next
  case (Cons k ks)
  let ?s1 = "s\<lparr>requests := requests s @ [g k]\<rparr>"
  have s1: "snd (sendOrQueueRequest (g k) s) = ?s1"
    using Cons.prems by (simp add: sendOrQueueRequest_disconnected)
  have "\<not> connected ?s1" using Cons.prems by simp
  from Cons.IH [OF this] show ?case
    by (simp add: s1)
qed

lemma sweep_split:
  "\<exists>n. n \<le> length ks
     \<and> socketSent (fold (\<lambda>k s'. snd (sendOrQueueRequest (g k) s')) ks s) =
         socketSent s @ map (\<lambda>(i, k). frame i (g k))
           (zip [Suc (seqNo s) ..< Suc (seqNo s) + n] (take n ks))
     \<and> requests (fold (\<lambda>k s'. snd (sendOrQueueRequest (g k) s')) ks s) =
         requests s @ map g (drop n ks)"
proof (induction ks arbitrary: s)
  case Nil
  show ?case by simp
next
  case (Cons k ks)
  let ?f = "\<lambda>k s'. snd (sendOrQueueRequest (g k) s')"
  show ?case
  proof (cases "connected s \<and> fst (sendRequest (g k) s) = None")
    case True
    let ?s1 = "snd (sendRequest (g k) s)"
    have s1: "?f k s = ?s1" using True by (simp add: sendOrQueueRequest_alt)
    from Cons.IH [of ?s1] obtain n where n: "n \<le> length ks"
      "socketSent (fold ?f ks ?s1) =
         socketSent ?s1 @ map (\<lambda>(i, k). frame i (g k))
           (zip [Suc (seqNo ?s1) ..< Suc (seqNo ?s1) + n] (take n ks))"
      "requests (fold ?f ks ?s1) = requests ?s1 @ map g (drop n ks)"
      by blast
    have sent: "socketSent ?s1 = socketSent s @ [frame (Suc (seqNo s)) (g k)]"
      using True by (simp add: sendRequest_socketSent)
    have "Suc n \<le> length (k # ks)" using n(1) by simp
    moreover have "socketSent (fold ?f (k # ks) s) =
         socketSent s @ map (\<lambda>(i, k). frame i (g k))
           (zip [Suc (seqNo s) ..< Suc (seqNo s) + Suc n] (take (Suc n) (k # ks)))"
      by (simp only: upt_add_Suc) (simp add: s1 n(2) sent)
    moreover have "requests (fold ?f (k # ks) s) = requests s @ map g (drop (Suc n) (k # ks))"
      by (simp add: s1 n(3))
    ultimately show ?thesis by blast
  next
    case False
    have d: "\<not> connected (?f k s)"
      using False by (auto simp add: sendOrQueueRequest_alt)
    have r: "requests (?f k s) = requests s @ [g k]"
      and t: "socketSent (?f k s) = socketSent s"
      using False by (auto simp add: sendOrQueueRequest_alt sendRequest_socketSent)
    from queue_all_disconnected [OF d, of g ks]
    have "socketSent (fold ?f (k # ks) s) = socketSent s"
      and "requests (fold ?f (k # ks) s) = requests s @ map g (k # ks)"
      by (simp_all add: r t)
    then have "0 \<le> length (k # ks)
       \<and> socketSent (fold ?f (k # ks) s) =
         socketSent s @ map (\<lambda>(i, k). frame i (g k))
           (zip [Suc (seqNo s) ..< Suc (seqNo s) + 0] (take 0 (k # ks)))
       \<and> requests (fold ?f (k # ks) s) = requests s @ map g (drop 0 (k # ks))"
      by simp
    then show ?thesis by blast
  qed
qed

lemma sendRequest_succeeds:
  assumes "0 < socketsOpened s" "sendThrows s = []"
  shows "sendRequest r s =
           (None, s\<lparr>seqNo := Suc (seqNo s), socketSent := socketSent s @ [frame (Suc (seqNo s)) r]\<rparr>)"
  using assms by (simp add: sendRequest_def Let_def)

lemma sweep_all_sent:
  assumes "connected s" "0 < socketsOpened s" "sendThrows s = []"
  shows "fold (\<lambda>k s'. snd (sendOrQueueRequest (g k) s')) ks s =
           s\<lparr>seqNo := seqNo s + length ks,
             socketSent := socketSent s @ map (\<lambda>(i, k). frame i (g k))
               (zip [Suc (seqNo s) ..< Suc (seqNo s) + length ks] ks)\<rparr>"
  using assms
proof (induction ks arbitrary: s)
  case Nil
  show ?case by simp
next
  case (Cons k ks)
  let ?f = "\<lambda>k s'. snd (sendOrQueueRequest (g k) s')"
  let ?s1 = "s\<lparr>seqNo := Suc (seqNo s), socketSent := socketSent s @ [frame (Suc (seqNo s)) (g k)]\<rparr>"
  have s1: "?f k s = ?s1"
    using Cons.prems by (simp add: sendOrQueueRequest_def sendRequest_succeeds)
  have "connected ?s1" "0 < socketsOpened ?s1" "sendThrows ?s1 = []"
    using Cons.prems by simp_all
  from Cons.IH [OF this] show ?case
    by (simp only: upt_add_Suc length_Cons) (simp add: s1)
qed

lemma flushLoop_all_sent:
  assumes "0 < socketsOpened s" "sendThrows s = []"
  shows "flushLoop rs s =
           ([], False,
            s\<lparr>seqNo := seqNo s + length rs,
              socketSent := socketSent s @ map (\<lambda>(i, r). frame i r)
                (zip [Suc (seqNo s) ..< Suc (seqNo s) + length rs] rs)\<rparr>)"
  using assms
proof (induction rs arbitrary: s)
  case Nil
  show ?case by simp
next
  case (Cons r rs)
  let ?s1 = "s\<lparr>seqNo := Suc (seqNo s), socketSent := socketSent s @ [frame (Suc (seqNo s)) r]\<rparr>"
  have "0 < socketsOpened ?s1" "sendThrows ?s1 = []"
    using Cons.prems by simp_all
  from Cons.IH [OF this] show ?case
    by (simp only: upt_add_Suc length_Cons)
      (simp add: sendRequest_succeeds [OF Cons.prems])
qed

lemma flushQueue_all_sent:
  assumes "0 < socketsOpened s" "sendThrows s = []"
  shows "flushQueue s =
           s\<lparr>seqNo := seqNo s + length (requests s),
             socketSent := socketSent s @ map (\<lambda>(i, r). frame i r)
               (zip [Suc (seqNo s) ..< Suc (seqNo s) + length (requests s)] (requests s)),
             requests := []\<rparr>"
  by (simp add: flushQueue_def flushLoop_all_sent [OF assms])

lemma resubscribeToAll_fold:
  "resubscribeToAll env s =
     fold (\<lambda>k s'. snd (sendOrQueueRequest (subscribe_request env k) s'))
       (Object_keys (listener s)) s"
proof -
  have h: "(\<lambda>k s'. if k = EVENTS_OBJECT_TYPE env then eventSubscribe s'
                 else tlmSubscribe (idToQualifiedName env k) s')
        = (\<lambda>k s'. snd (sendOrQueueRequest (subscribe_request env k) s'))"
    by (intro ext) (simp add: subscribe_request_def eventSubscribe_def tlmSubscribe_def)
  show ?thesis by (simp only: resubscribeToAll_def h)
qed

text \<open>The state in which the sweep of an open starts.\<close>

lemma onopen_sweep_drain:
  "onopen env s =
     flushQueue (resubscribeToAll env
       ((clearTimeout s)\<lparr>keepAliveIntervals := keepAliveIntervals s + 1, connected := True,
          currentWaitIndex := 0\<rparr>))"
  by (simp add: onopen_def Let_def clearTimeout_def split: option.splits)

lemma clearTimeout_fields [simp]:
  "seqNo (clearTimeout s) = seqNo s"
  "requests (clearTimeout s) = requests s"
  "socketSent (clearTimeout s) = socketSent s"
  "socketsOpened (clearTimeout s) = socketsOpened s"
  "sendThrows (clearTimeout s) = sendThrows s"
  by (simp_all add: clearTimeout_def split: option.splits)

lemma drop_length_append: "drop (length xs) (xs @ ys) = ys"
  by simp

lemma onopen_emits:
  "\<exists>ks1 ks2 t. Object_keys (listener s) = ks1 @ ks2
     \<and> socketSent t =
         socketSent s @ map (\<lambda>(i, k). frame i (subscribe_request env k))
           (zip [Suc (seqNo s) ..< Suc (seqNo s) + length ks1] ks1)
     \<and> requests t = requests s @ map (subscribe_request env) ks2
     \<and> onopen env s = flushQueue t"
proof -
  let ?s4 = "(clearTimeout s)\<lparr>keepAliveIntervals := keepAliveIntervals s + 1, connected := True,
          currentWaitIndex := 0\<rparr>"
  let ?ks = "Object_keys (listener s)"
  let ?t = "resubscribeToAll env ?s4"
  have ks: "Object_keys (listener ?s4) = ?ks" by simp
  from sweep_split [of ?ks "subscribe_request env" ?s4]
  obtain n where n: "n \<le> length ?ks"
    "socketSent ?t =
       socketSent s @ map (\<lambda>(i, k). frame i (subscribe_request env k))
         (zip [Suc (seqNo s) ..< Suc (seqNo s) + n] (take n ?ks))"
    "requests ?t = requests s @ map (subscribe_request env) (drop n ?ks)"
    unfolding resubscribeToAll_fold ks by auto
  have "?ks = take n ?ks @ drop n ?ks" by simp
  moreover have "length (take n ?ks) = n" using n(1) by simp
  moreover have "onopen env s = flushQueue ?t" by (rule onopen_sweep_drain)
  ultimately show ?thesis
    using n(2,3) by metis
qed

lemma onopen_all_sent:
  assumes "0 < socketsOpened s" "sendThrows s = []"
  shows "socketSent (onopen env s) =
           socketSent s
             @ map (\<lambda>(i, k). frame i (subscribe_request env k))
                 (zip [Suc (seqNo s) ..< Suc (seqNo s) + length (Object_keys (listener s))]
                    (Object_keys (listener s)))
             @ map (\<lambda>(i, r). frame i r)
                 (zip [Suc (seqNo s) + length (Object_keys (listener s))
                        ..< Suc (seqNo s) + length (Object_keys (listener s))
                              + length (requests s)]
                    (requests s))"
    and "requests (onopen env s) = []"
    and "connected (onopen env s)"
proof -
  let ?s4 = "(clearTimeout s)\<lparr>keepAliveIntervals := keepAliveIntervals s + 1, connected := True,
          currentWaitIndex := 0\<rparr>"
  let ?ks = "Object_keys (listener s)"
  let ?t = "?s4\<lparr>seqNo := seqNo s + length ?ks,
             socketSent := socketSent s @ map (\<lambda>(i, k). frame i (subscribe_request env k))
               (zip [Suc (seqNo s) ..< Suc (seqNo s) + length ?ks] ?ks)\<rparr>"
  have c: "connected ?s4" "0 < socketsOpened ?s4" "sendThrows ?s4 = []"
    using assms by simp_all
  have t: "resubscribeToAll env ?s4 = ?t"
    unfolding resubscribeToAll_fold
    using sweep_all_sent [OF c, of "subscribe_request env" ?ks] by simp
  have o: "0 < socketsOpened ?t" "sendThrows ?t = []"
    using assms by simp_all
  have f: "flushQueue ?t =
     ?t\<lparr>seqNo := seqNo ?t + length (requests ?t),
         socketSent := socketSent ?t @ map (\<lambda>(i, r). frame i r)
           (zip [Suc (seqNo ?t) ..< Suc (seqNo ?t) + length (requests ?t)] (requests ?t)),
         requests := []\<rparr>"
    by (rule flushQueue_all_sent [OF o])
  have open_eq: "onopen env s = flushQueue ?t"
    by (simp only: onopen_sweep_drain t)
  show "socketSent (onopen env s) =
           socketSent s
             @ map (\<lambda>(i, k). frame i (subscribe_request env k))
                 (zip [Suc (seqNo s) ..< Suc (seqNo s) + length ?ks] ?ks)
             @ map (\<lambda>(i, r). frame i r)
                 (zip [Suc (seqNo s) + length ?ks
                        ..< Suc (seqNo s) + length ?ks + length (requests s)]
                    (requests s))"
    unfolding open_eq f by simp
  show "requests (onopen env s) = []"
    unfolding open_eq f by simp
  show "connected (onopen env s)"
    unfolding open_eq f by simp
qed

subsection \<open>Registering and withdrawing\<close>

text \<open>
  Claim C1, as amended. Take a registration made while the provider is not connected,
  under an identifier other than \<^verbatim>\<open>__proto__\<close> and with \<^verbatim>\<open>Object.prototype\<close> still
  the prototype of the registry. It only stores the callback: nothing is sent and the
  queue is as before. The identifier is then among the keys of the registry. In whatever
  state \<open>u\<close> the identifier is among the keys, an open runs the sweep over the keys, this
  one among them: the subscribe messages of a first part of the keys are sent, those of
  the rest are queued, and the drain of the queue follows. When the socket exists and no
  send throws, the subscribe message of the identifier is among the frames that the open
  sends.
\<close>

theorem subscribe_while_disconnected:
  assumes "\<not> connected s" and "listenerProto s = None" and "k \<noteq> ''__proto__''"
  shows "subscribe env k callback s =
           (Inr (if k = EVENTS_OBJECT_TYPE env then EventHandle k else TelemetryHandle k),
            s\<lparr>listener := AList.update k callback (listener s)\<rparr>)
       \<and> requests (snd (subscribe env k callback s)) = requests s
       \<and> socketSent (snd (subscribe env k callback s)) = socketSent s
       \<and> map_of (listener (snd (subscribe env k callback s))) k = Some callback
       \<and> k \<in> set (Object_keys (listener (snd (subscribe env k callback s))))
       \<and> (k \<in> set (Object_keys (listener u)) \<longrightarrow>
            (\<exists>ks1 ks2 t. Object_keys (listener u) = ks1 @ ks2 \<and> k \<in> set (ks1 @ ks2)
               \<and> socketSent t =
                   socketSent u @ map (\<lambda>(i, k). frame i (subscribe_request env k))
                     (zip [Suc (seqNo u) ..< Suc (seqNo u) + length ks1] ks1)
               \<and> requests t = requests u @ map (subscribe_request env) ks2
               \<and> onopen env u = flushQueue t))
       \<and> (k \<in> set (Object_keys (listener u)) \<and> 0 < socketsOpened u \<and> sendThrows u = [] \<longrightarrow>
            (\<exists>i. frame i (subscribe_request env k)
                    \<in> set (drop (length (socketSent u)) (socketSent (onopen env u)))))"
proof -
  have eq: "subscribe env k callback s =
           (Inr (if k = EVENTS_OBJECT_TYPE env then EventHandle k else TelemetryHandle k),
            s\<lparr>listener := AList.update k callback (listener s)\<rparr>)"
    using assms
    by (simp add: subscribe_def assignListener_new subscribeToEvent_def subscribeToTelemetry_def)
  have sweep: "\<exists>ks1 ks2 t. Object_keys (listener u) = ks1 @ ks2 \<and> k \<in> set (ks1 @ ks2)
               \<and> socketSent t =
                   socketSent u @ map (\<lambda>(i, k). frame i (subscribe_request env k))
                     (zip [Suc (seqNo u) ..< Suc (seqNo u) + length ks1] ks1)
               \<and> requests t = requests u @ map (subscribe_request env) ks2
               \<and> onopen env u = flushQueue t"
    if "k \<in> set (Object_keys (listener u))"
    using onopen_emits [of u env] that by metis
  have sent: "\<exists>i. frame i (subscribe_request env k)
                    \<in> set (drop (length (socketSent u)) (socketSent (onopen env u)))"
    if k: "k \<in> set (Object_keys (listener u))" and o: "0 < socketsOpened u" "sendThrows u = []"
  proof -
    let ?ks = "Object_keys (listener u)"
    let ?is = "[Suc (seqNo u) ..< Suc (seqNo u) + length ?ks]"
    have "length ?is = length ?ks" by (simp only: length_upt diff_add_inverse)
    then obtain i where "(i, k) \<in> set (zip ?is ?ks)"
      using k by (rule in_set_impl_in_set_zip2)
    then have "(\<lambda>(i, k). frame i (subscribe_request env k)) (i, k)
        \<in> set (map (\<lambda>(i, k). frame i (subscribe_request env k)) (zip ?is ?ks))"
      unfolding set_map by (rule imageI)
    then have "frame i (subscribe_request env k)
        \<in> set (map (\<lambda>(i, k). frame i (subscribe_request env k)) (zip ?is ?ks))"
      by (simp only: prod.case)
    then have "frame i (subscribe_request env k)
        \<in> set (drop (length (socketSent u)) (socketSent (onopen env u)))"
      unfolding onopen_all_sent(1) [OF o] drop_length_append set_append by (rule UnI1)
    then show ?thesis ..
  qed
  show ?thesis
    using sweep sent by (simp add: eq update_conv' set_Object_keys dom_update)
qed

text \<open>
  A registration with a new provider, and the open of the connection that the provider
  makes after it.
\<close>

theorem subscribe_while_disconnected_witness:
  "\<not> connected (new_provider [] :: string provider)
   \<and> subscribe example_env ''~a'' ''cb'' (new_provider [])
       = (Inr (TelemetryHandle ''~a''), (new_provider [])\<lparr>listener := [(''~a'', ''cb'')]\<rparr>)
   \<and> (\<exists>ks1 ks2 t. [''~a''] = ks1 @ ks2
         \<and> socketSent t =
             map (\<lambda>(i, k). frame i (subscribe_request example_env k))
               (zip [Suc 0 ..< Suc 0 + length ks1] ks1)
         \<and> requests t = map (subscribe_request example_env) ks2
         \<and> onopen example_env
              (run example_env [Subscribe ''~a'' ''cb'', Connect] (new_provider []))
             = flushQueue t)
   \<and> (\<exists>i. frame i (subscribe_request example_env ''~a'')
             \<in> set (socketSent (onopen example_env
                  (run example_env [Subscribe ''~a'' ''cb'', Connect] (new_provider [])))))"
proof -
  let ?n = "new_provider [] :: string provider"
  let ?u = "run example_env [Subscribe ''~a'' ''cb'', Connect] ?n"
  have h1: "\<not> connected ?n" and h2: "listenerProto ?n = None"
    by (simp_all add: new_provider_def)
  have h3: "''~a'' \<noteq> ''__proto__''" by simp
  have l: "listener ?n = []"
    by (simp add: new_provider_def)
  have e: "EVENTS_OBJECT_TYPE example_env \<noteq> ''~a''"
    by (simp add: example_env_def)
  have ks: "Object_keys (listener ?u) = [''~a'']"
    by (simp add: provider_defs)
  have f: "seqNo ?u = 0" "socketSent ?u = []" "requests ?u = []"
    by (simp_all add: provider_defs)
  note t = subscribe_while_disconnected [OF h1 h2 h3, of example_env "''cb''" ?u]
  have a: "subscribe example_env ''~a'' ''cb'' ?n
       = (Inr (TelemetryHandle ''~a''), ?n\<lparr>listener := [(''~a'', ''cb'')]\<rparr>)"
    using t [THEN conjunct1] e by (simp add: l)
  have m: "''~a'' \<in> set (Object_keys (listener ?u))"
    by (simp only: ks) simp
  have "\<exists>ks1 ks2 t. Object_keys (listener ?u) = ks1 @ ks2 \<and> ''~a'' \<in> set (ks1 @ ks2)
               \<and> socketSent t =
                   socketSent ?u @ map (\<lambda>(i, k). frame i (subscribe_request example_env k))
                     (zip [Suc (seqNo ?u) ..< Suc (seqNo ?u) + length ks1] ks1)
               \<and> requests t = requests ?u @ map (subscribe_request example_env) ks2
               \<and> onopen example_env ?u = flushQueue t"
    by (rule t [THEN conjunct2, THEN conjunct2, THEN conjunct2, THEN conjunct2,
          THEN conjunct2, THEN conjunct1, THEN mp, OF m])
  then have x: "\<exists>ks1 ks2 t. [''~a''] = ks1 @ ks2
         \<and> socketSent t =
             map (\<lambda>(i, k). frame i (subscribe_request example_env k))
               (zip [Suc 0 ..< Suc 0 + length ks1] ks1)
         \<and> requests t = map (subscribe_request example_env) ks2
         \<and> onopen example_env ?u = flushQueue t"
    unfolding ks f append_Nil
    by (elim exE conjE) (intro exI conjI; assumption)
  have o: "0 < socketsOpened ?u" "sendThrows ?u = []"
    by (simp_all add: provider_defs)
  from m o have m': "''~a'' \<in> set (Object_keys (listener ?u)) \<and> 0 < socketsOpened ?u
              \<and> sendThrows ?u = []"
    by (intro conjI)
  have "\<exists>i. frame i (subscribe_request example_env ''~a'')
             \<in> set (drop (length (socketSent ?u)) (socketSent (onopen example_env ?u)))"
    by (rule t [THEN conjunct2, THEN conjunct2, THEN conjunct2, THEN conjunct2,
          THEN conjunct2, THEN conjunct2, THEN mp, OF m'])
  then have y: "\<exists>i. frame i (subscribe_request example_env ''~a'')
             \<in> set (socketSent (onopen example_env ?u))"
    unfolding f by (simp only: list.size drop_0)
  show ?thesis
    by (rule conjI [OF h1 conjI [OF a conjI [OF x y]]])
qed

text \<open>
  Claim C1 as it was stated fails: a new provider is not connected, and after a
  registration the entry is stored while the queue is empty and nothing was sent.
\<close>

theorem subscribe_claim_counterexample:
  "\<not> connected (new_provider [] :: string provider)
   \<and> listener (snd (subscribe example_env ''~a'' ''cb'' (new_provider []))) = [(''~a'', ''cb'')]
   \<and> requests (snd (subscribe example_env ''~a'' ''cb'' (new_provider []))) = []
   \<and> socketSent (snd (subscribe example_env ''~a'' ''cb'' (new_provider []))) = []"
  by (simp add: provider_defs)




subsection \<open>What an open emits\<close>

lemma Suc4_eq_4: "Suc (Suc (Suc (Suc 0))) = 4"
  by simp

lemma registered_example_fields:
  "listener registered_example = [(''yamcs.events'', ''cb1''), (''~a'', ''cb2'')]"
  "connected registered_example"
  "socketsOpened registered_example = Suc 0"
  "sendThrows registered_example = []"
  "seqNo registered_example = 4"
  "requests registered_example = []"
  "socketSent registered_example =
     [frame 1 event_subscribe_request, frame 2 (tlm_subscribe_request ''/a''),
      frame 3 (tlm_subscribe_request ''/b''), frame 4 (tlm_unsubscribe_request None)]"
  "delivered registered_example = []"
  by (simp_all add: registered_example_def provider_defs Suc4_eq_4)


lemma makePoint_example: "makePoint example_env parameter_example = Inr point_example"
  by (simp add: makePoint_def example_env_def parameter_example_def point_example_def)

lemma frame_texts:
  "string_of_nat (Suc 0) = ''1''" "string_of_nat 2 = ''2''"
  by (simp_all add: digit_char_def)





subsection \<open>One callback for each identifier\<close>

lemma filter_update_registered:
  assumes "distinct (map fst al)" "k \<in> fst ` set al"
  shows "map snd (filter (\<lambda>(k', c). k' = k) (AList.update k v al)) = [v]"
  using assms
proof (induction al)
  case Nil
  then show ?case by simp
next
  case (Cons p al)
  obtain a b where p: "p = (a, b)" by (cases p)
  show ?case
  proof (cases "a = k")
    case True
    then have "k \<notin> fst ` set al" using Cons.prems(1) p by auto
    then have "filter (\<lambda>(k', c). k' = k) al = []"
      by (force simp add: filter_empty_conv)
    with True p show ?thesis by simp
  next
    case False
    with Cons p show ?thesis by auto
  qed
qed

text \<open>
  Claim C8. When an identifier is registered already, a registration with a new callback
  leaves the keys of the registry as they are and stores the new callback as the only
  one for the identifier. A sample for that identifier is then delivered to the new
  callback, once, and to no other; the same holds for the data of an event frame when
  the identifier is the one of the event channel.
\<close>

theorem second_registration_replaces:
  assumes "k \<in> fst ` set (listener s)" and "distinct (map fst (listener s))"
  shows "map fst (listener (snd (subscribe env k callback s))) = map fst (listener s)
       \<and> map snd (filter (\<lambda>(k', c). k' = k) (listener (snd (subscribe env k callback s))))
           = [callback]
       \<and> (makePoint env parameter = Inr pt \<and> point_id pt = k \<longrightarrow>
            deliverParameter env parameter (snd (subscribe env k callback s)) =
              (None, (snd (subscribe env k callback s))
                 \<lparr>delivered := delivered (snd (subscribe env k callback s))
                    @ [(callback, Point pt)]\<rparr>))
       \<and> (k = EVENTS_OBJECT_TYPE env \<and> js_prop body ''data'' = Inr d \<longrightarrow>
            deliverEvent env body (snd (subscribe env k callback s)) =
              (None, (snd (subscribe env k callback s))
                 \<lparr>delivered := delivered (snd (subscribe env k callback s))
                    @ [(callback, EventData d)]\<rparr>))"
proof (intro conjI impI)
  show "map fst (listener (snd (subscribe env k callback s))) = map fst (listener s)"
    using assms(1) by (simp add: subscribe_listener_own update_keys)
  show "map snd (filter (\<lambda>(k', c). k' = k) (listener (snd (subscribe env k callback s))))
           = [callback]"
    using assms by (simp add: subscribe_listener_own filter_update_registered)
next
  assume "makePoint env parameter = Inr pt \<and> point_id pt = k"
  then show "deliverParameter env parameter (snd (subscribe env k callback s)) =
              (None, (snd (subscribe env k callback s))
                 \<lparr>delivered := delivered (snd (subscribe env k callback s))
                    @ [(callback, Point pt)]\<rparr>)"
    using assms(1)
    by (simp add: deliverParameter_def dispatch_def listener_member_def
        subscribe_listener_own update_conv')
next
  assume "k = EVENTS_OBJECT_TYPE env \<and> js_prop body ''data'' = Inr d"
  then have k: "EVENTS_OBJECT_TYPE env = k" and b: "js_prop body ''data'' = Inr d" by simp_all
  show "deliverEvent env body (snd (subscribe env k callback s)) =
              (None, (snd (subscribe env k callback s))
                 \<lparr>delivered := delivered (snd (subscribe env k callback s))
                    @ [(callback, EventData d)]\<rparr>)"
    using assms(1)
    by (simp add: deliverEvent_def k b listener_member_def subscribe_listener_own update_conv')
qed

text \<open>
  A second registration for \<^verbatim>\<open>~a\<close>, and a sample for it.
\<close>

theorem second_registration_replaces_witness:
  "listener registered_example = [(''yamcs.events'', ''cb1''), (''~a'', ''cb2'')]
   \<and> listener (snd (subscribe example_env ''~a'' ''cb9'' registered_example))
       = [(''yamcs.events'', ''cb1''), (''~a'', ''cb9'')]
   \<and> delivered (snd (deliverParameter example_env parameter_example
         (snd (subscribe example_env ''~a'' ''cb9'' registered_example))))
       = [(''cb9'', Point point_example)]"
proof -
  have h1: "''~a'' \<in> fst ` set (listener registered_example)"
    by (simp add: registered_example_fields)
  have h2: "distinct (map fst (listener registered_example))"
    by (simp add: registered_example_fields)
  have p: "point_id point_example = ''~a''" by (simp add: point_example_def)
  have d: "delivered (snd (subscribe example_env ''~a'' ''cb9'' registered_example)) = []"
    by (simp add: registered_example_def provider_defs)
  from second_registration_replaces [OF h1 h2, of example_env "''cb9''" parameter_example
      point_example]
  show ?thesis
    by (simp add: makePoint_example p d registered_example_fields
        subscribe_listener_own [OF h1])
qed

subsection \<open>Frames that are dropped\<close>










end
